theory Spec2Isabelle
  imports Main "HOL-Library.Char_ord" "HOL-Library.List_Lexorder"
begin

section \<open>Tangent: Word to JPG converter (tangent.ts)\<close>

text \<open>
  A shallow embedding of \<^verbatim>\<open>src/tangent.ts\<close>. JavaScript strings are modelled as
  \<^typ>\<open>string\<close> (the UTF-8 bytes of the text, so the multiplication sign U+00D7 is the two
  bytes C3 97), absolute normalised paths as lists of path components, the file system as
  a tree of directory entries, external programs as functions of the environment that
  return a status with captured output and a changed file system, \<^verbatim>\<open>process.exit\<close> and
  thrown exceptions as the left summand of a sum type, and console output as a list of
  messages kept in the state.
\<close>

subsection \<open>Strings and numbers\<close>

definition startsWith :: "string \<Rightarrow> string \<Rightarrow> bool" where
  "startsWith p s = (take (length p) s = p)"

definition endsWith :: "string \<Rightarrow> string \<Rightarrow> bool" where
  "endsWith suffix s = (length suffix \<le> length s \<and> drop (length s - length suffix) s = suffix)"

definition isDigit :: "char \<Rightarrow> bool" where
  "isDigit c = (c \<in> set ''0123456789'')"

text \<open>White space as \<^verbatim>\<open>\s\<close>, \<^verbatim>\<open>trim\<close> and \<^verbatim>\<open>parseInt\<close> skip it: TAB, LF, VT, FF, CR and
  SPACE, the white space of the ASCII range. The runtime also skips the white space
  outside that range (U+00A0, U+FEFF, U+2028 and the other Unicode spaces), which this
  embedding leaves out: \<open>trim\<close>, \<open>parseInt\<close> and \<open>pagesAt\<close> below agree with the runtime on
  texts without these characters.\<close>

definition isWhite :: "char \<Rightarrow> bool" where
  "isWhite c = (of_char c \<in> {9, 10, 11, 12, 13, 32 :: nat})"

definition trim :: "string \<Rightarrow> string" where
  "trim s = rev (dropWhile isWhite (rev (dropWhile isWhite s)))"

definition toLowerChar :: "char \<Rightarrow> char" where
  "toLowerChar c =
     (case map_of (zip ''ABCDEFGHIJKLMNOPQRSTUVWXYZ'' ''abcdefghijklmnopqrstuvwxyz'') c of
        None \<Rightarrow> c
      | Some l \<Rightarrow> l)"

definition toLowerCase :: "string \<Rightarrow> string" where
  "toLowerCase s = map toLowerChar s"

text \<open>A JavaScript number as far as the program produces one: the result of
  \<^verbatim>\<open>parseInt\<close> is NaN, an integer-valued double, or an infinity.\<close>

datatype number = NaN | Num int | PosInfinity | NegInfinity

definition decimal :: "string \<Rightarrow> nat" where
  "decimal ds = foldl (\<lambda>a c. 10 * a + (of_char c - 48)) 0 ds"

fun bitLength :: "nat \<Rightarrow> nat" where
  "bitLength n = (if n = 0 then 0 else Suc (bitLength (n div 2)))"

text \<open>The double nearest to a natural number (53 bits of significand, ties to even).\<close>

definition toDouble :: "nat \<Rightarrow> nat" where
  "toDouble n =
     (if n < 2 ^ 53 then n
      else (let e = bitLength n - 53; q = n div 2 ^ e; r = n mod 2 ^ e; half = 2 ^ (e - 1)
            in if half < r \<or> (r = half \<and> odd q) then (q + 1) * 2 ^ e else q * 2 ^ e))"

definition numberOfNat :: "nat \<Rightarrow> number" where
  "numberOfNat n = (let d = toDouble n in if 2 ^ 1024 \<le> d then PosInfinity else Num (int d))"

definition negateNumber :: "number \<Rightarrow> number" where
  "negateNumber x = (case x of NaN \<Rightarrow> NaN | Num i \<Rightarrow> Num (- i)
                     | PosInfinity \<Rightarrow> NegInfinity | NegInfinity \<Rightarrow> PosInfinity)"

text \<open>\<^verbatim>\<open>parseInt(s, 10)\<close>: leading white space, an optional sign, then the longest run of
  decimal digits; NaN when there is no digit.\<close>

definition parseInt :: "string \<Rightarrow> number" where
  "parseInt s =
     (let t = dropWhile isWhite s;
          neg = (t \<noteq> [] \<and> hd t = CHR ''-'');
          u = (if t \<noteq> [] \<and> (hd t = CHR ''-'' \<or> hd t = CHR ''+'') then tl t else t);
          ds = takeWhile isDigit u
      in if ds = [] then NaN
         else if neg then negateNumber (numberOfNat (decimal ds)) else numberOfNat (decimal ds))"

subsection \<open>Paths\<close>

text \<open>An absolute, normalised path is the list of its components; the root is the empty
  list. \<^verbatim>\<open>path.resolve\<close> and \<^verbatim>\<open>path.join\<close> split their argument at the separator and
  normalise: empty and \<^verbatim>\<open>.\<close> segments are dropped, \<^verbatim>\<open>..\<close> removes the last component.\<close>

type_synonym path = "string list"

fun splitPath :: "string \<Rightarrow> string list" where
  "splitPath [] = [[]]"
| "splitPath (c # cs) =
     (if c = CHR ''/'' then [] # splitPath cs
      else (case splitPath cs of [] \<Rightarrow> [[c]] | s # ss \<Rightarrow> (c # s) # ss))"

fun normalizeInto :: "path \<Rightarrow> string list \<Rightarrow> path" where
  "normalizeInto p [] = p"
| "normalizeInto p (s # ss) =
     (if s = [] \<or> s = ''.'' then normalizeInto p ss
      else if s = ''..'' then normalizeInto (butlast p) ss
      else normalizeInto (p @ [s]) ss)"

definition resolve :: "path \<Rightarrow> string \<Rightarrow> path" where
  "resolve cwd s =
     (if startsWith ''/'' s then normalizeInto [] (splitPath s) else normalizeInto cwd (splitPath s))"

definition path_join :: "path \<Rightarrow> string \<Rightarrow> path" where
  "path_join dir s = normalizeInto dir (splitPath s)"

text \<open>\<^verbatim>\<open>path.extname\<close> on one path component: from the last dot to the end, and empty when
  there is no dot, when the only dot is the first character, or when the component is
  \<^verbatim>\<open>..\<close>.\<close>

definition extname :: "string \<Rightarrow> string" where
  "extname nm =
     (let k = length (takeWhile (\<lambda>c. c \<noteq> CHR ''.'') (rev nm))
      in if k = length nm then []
         else if length nm - k - 1 = 0 then []
         else if nm = ''..'' then []
         else drop (length nm - k - 1) nm)"

definition path_extname :: "path \<Rightarrow> string" where
  "path_extname p = (if p = [] then [] else extname (last p))"

text \<open>\<^verbatim>\<open>path.basename(p, ext)\<close>: the last component, without the suffix when the suffix
  is a proper end of it.\<close>

definition basename :: "path \<Rightarrow> string \<Rightarrow> string" where
  "basename p ext =
     (if p = [] then []
      else (let nm = last p
            in if ext \<noteq> [] \<and> length ext < length nm \<and> endsWith ext nm
               then take (length nm - length ext) nm else nm))"

definition dirname :: "path \<Rightarrow> path" where
  "dirname p = butlast p"

subsection \<open>Configuration, results and console output\<close>

record dimensions =
  width :: number
  height :: number

record config =
  inputPath :: path
  outputDir :: path
  dpi :: number
  quality :: number
  resize :: "dimensions option"
  recursive :: bool

record conversionResult =
  source :: path
  pages :: nat
  outputFiles :: "path list"
  error :: "string option"

text \<open>What a thrown \<^verbatim>\<open>Error\<close> is: the four errors \<^verbatim>\<open>convertFile\<close> throws itself, and the
  errors of the runtime and of the Node API (a \<^verbatim>\<open>TypeError\<close>, a failed file system call).\<close>

datatype exn =
    LibreOfficeError string
  | NoPdfFound
  | PdftoppmError string
  | ResizeError string
  | JsError string

fun message :: "exn \<Rightarrow> string" where
  "message (LibreOfficeError d) = ''LibreOffice error: '' @ d"
| "message NoPdfFound = ''No PDF file found after LibreOffice conversion.''"
| "message (PdftoppmError d) = ''pdftoppm error: '' @ d"
| "message (ResizeError d) = ''ImageMagick resize error: '' @ d"
| "message (JsError m) = m"

text \<open>How a function of the program can end other than by returning:
  \<^verbatim>\<open>process.exit(n)\<close>, or an exception nobody caught.\<close>

datatype abort = Exit int | Uncaught exn

text \<open>The lines written to the console, one constructor per \<^verbatim>\<open>console.log\<close> or
  \<^verbatim>\<open>console.error\<close> site (the consecutive lines of one site are one message).\<close>

datatype consoleLine =
    Banner
  | HelpText
  | InvalidResize string
  | LibreOfficeMissing
  | PdftoppmMissing
  | ConvertMissing
  | InputNotFound path
  | NotWordDocument path
  | NoWordFiles
  | RunInfo path nat number number "dimensions option"
  | Progress nat nat string
  | ConvertingToPdf
  | CreatingJpgs number number
  | Resizing number number
  | ErrorLine string
  | SuccessLine nat path path
  | Summary nat nat nat path
  | UnexpectedError string

subsection \<open>parseArgs\<close>

text \<open>The match of \<^verbatim>\<open>/^(\d+)[x\<times>](\d+)$/i\<close>: the two groups, or \<open>None\<close>.\<close>

definition resizeSeparator :: "string \<Rightarrow> string option" where
  "resizeSeparator r =
     (if startsWith ''x'' r \<or> startsWith ''X'' r then Some (drop 1 r)
      else if startsWith [CHR 0xC3, CHR 0x97] r then Some (drop 2 r)
      else None)"

definition matchResize :: "string \<Rightarrow> (string \<times> string) option" where
  "matchResize raw =
     (let g1 = takeWhile isDigit raw
      in if g1 = [] then None
         else (case resizeSeparator (dropWhile isDigit raw) of
                 None \<Rightarrow> None
               | Some g2 \<Rightarrow> if g2 \<noteq> [] \<and> list_all isDigit g2 then Some (g1, g2) else None))"

definition argumentTypeError :: exn where
  "argumentTypeError = JsError ''TypeError: argument is undefined''"

text \<open>The loop of \<^verbatim>\<open>parseArgs\<close> over the remaining arguments. \<^verbatim>\<open>args[++i]\<close> is the head of
  the rest, \<^verbatim>\<open>undefined\<close> when the rest is empty: \<^verbatim>\<open>path.resolve(undefined)\<close> and
  \<^verbatim>\<open>undefined.match\<close> throw, \<^verbatim>\<open>parseInt(undefined, 10)\<close> is NaN. The result is the
  configuration, or what was printed and how the process ended.\<close>

fun parseLoop :: "path \<Rightarrow> string list \<Rightarrow> config \<Rightarrow> (consoleLine list \<times> abort) + config" where
  "parseLoop cwd [] c = Inr c"
| "parseLoop cwd (a # rest) c =
     (if a = ''-h'' \<or> a = ''--help'' then Inl ([HelpText], Exit 0)
      else if a = ''-i'' \<or> a = ''--input'' then
        (case rest of
           [] \<Rightarrow> Inl ([], Uncaught argumentTypeError)
         | v # rest' \<Rightarrow> parseLoop cwd rest' (c\<lparr>inputPath := resolve cwd v\<rparr>))
      else if a = ''-o'' \<or> a = ''--output'' then
        (case rest of
           [] \<Rightarrow> Inl ([], Uncaught argumentTypeError)
         | v # rest' \<Rightarrow> parseLoop cwd rest' (c\<lparr>outputDir := resolve cwd v\<rparr>))
      else if a = ''-d'' \<or> a = ''--dpi'' then
        (case rest of
           [] \<Rightarrow> Inr (c\<lparr>dpi := NaN\<rparr>)
         | v # rest' \<Rightarrow> parseLoop cwd rest' (c\<lparr>dpi := parseInt v\<rparr>))
      else if a = ''-q'' \<or> a = ''--quality'' then
        (case rest of
           [] \<Rightarrow> Inr (c\<lparr>quality := NaN\<rparr>)
         | v # rest' \<Rightarrow> parseLoop cwd rest' (c\<lparr>quality := parseInt v\<rparr>))
      else if a = ''-s'' \<or> a = ''--resize'' then
        (case rest of
           [] \<Rightarrow> Inl ([], Uncaught argumentTypeError)
         | raw # rest' \<Rightarrow>
             (case matchResize raw of
                None \<Rightarrow> Inl ([InvalidResize raw], Exit 1)
              | Some (g1, g2) \<Rightarrow>
                  parseLoop cwd rest' (c\<lparr>resize := Some \<lparr>width = parseInt g1, height = parseInt g2\<rparr>\<rparr>)))
      else if a = ''-r'' \<or> a = ''--recursive'' then parseLoop cwd rest (c\<lparr>recursive := True\<rparr>)
      else if \<not> startsWith ''-'' a then parseLoop cwd rest (c\<lparr>inputPath := resolve cwd a\<rparr>)
      else parseLoop cwd rest c)"

definition defaultConfig :: "path \<Rightarrow> config" where
  "defaultConfig cwd =
     \<lparr>inputPath = cwd, outputDir = path_join cwd ''output'', dpi = Num 150, quality = Num 90,
      resize = None, recursive = False\<rparr>"

definition parseArgs :: "path \<Rightarrow> string list \<Rightarrow> (consoleLine list \<times> abort) + config" where
  "parseArgs cwd args = parseLoop cwd args (defaultConfig cwd)"

subsection \<open>The file system\<close>

text \<open>A directory is the list of its entries in the order \<^verbatim>\<open>readdirSync\<close> reports them;
  \<open>Other\<close> is an entry that is neither a regular file nor a directory. File contents play
  no part in the program. Symbolic links are not modelled: inside a directory a link is an
  \<open>Other\<close> entry, as \<^verbatim>\<open>Dirent\<close> reports it, but \<^verbatim>\<open>statSync\<close> on the input path would
  follow a link where the embedding sees \<open>Other\<close>.\<close>

datatype node = File | Other | Dir "entry list"
and entry = Entry string node

fun entryName :: "entry \<Rightarrow> string" where
  "entryName (Entry n nd) = n"

fun findEntry :: "string \<Rightarrow> entry list \<Rightarrow> node option" where
  "findEntry n [] = None"
| "findEntry n (Entry m nd # es) = (if m = n then Some nd else findEntry n es)"

fun lookup :: "entry list \<Rightarrow> path \<Rightarrow> node option" where
  "lookup es [] = Some (Dir es)"
| "lookup es [n] = findEntry n es"
| "lookup es (n # k # p) =
     (case findEntry n es of Some (Dir sub) \<Rightarrow> lookup sub (k # p) | _ \<Rightarrow> None)"

definition existsSync :: "entry list \<Rightarrow> path \<Rightarrow> bool" where
  "existsSync fs p = (lookup fs p \<noteq> None)"

text \<open>\<^verbatim>\<open>readdirSync\<close>: the names of a directory's entries; \<open>None\<close> when the call throws
  (the path is missing or not a directory).\<close>

definition readdirSync :: "entry list \<Rightarrow> path \<Rightarrow> string list option" where
  "readdirSync fs p = (case lookup fs p of Some (Dir es) \<Rightarrow> Some (map entryName es) | _ \<Rightarrow> None)"

text \<open>\<^verbatim>\<open>mkdirSync(p, {recursive: true})\<close>: creates the missing directories along the path;
  \<open>None\<close> when the call throws because a component exists and is not a directory.\<close>

fun mkdirp :: "entry list \<Rightarrow> path \<Rightarrow> entry list option" where
  "mkdirp es [] = Some es"
| "mkdirp [] (n # p) =
     (case mkdirp [] p of None \<Rightarrow> None | Some sub \<Rightarrow> Some [Entry n (Dir sub)])"
| "mkdirp (Entry m nd # es) (n # p) =
     (if m = n then
        (case nd of
           Dir sub \<Rightarrow> (case mkdirp sub p of None \<Rightarrow> None | Some sub' \<Rightarrow> Some (Entry m (Dir sub') # es))
         | _ \<Rightarrow> None)
      else (case mkdirp es (n # p) of None \<Rightarrow> None | Some es' \<Rightarrow> Some (Entry m nd # es')))"

text \<open>The effect of a successful \<^verbatim>\<open>rmSync(p, {recursive: true, force: true})\<close>: the entry
  at the path is gone, with everything below it.\<close>

fun removePath :: "entry list \<Rightarrow> path \<Rightarrow> entry list" where
  "removePath es [] = es"
| "removePath [] (n # p) = []"
| "removePath (Entry m nd # es) [n] =
     (if m = n then removePath es [n] else Entry m nd # removePath es [n])"
| "removePath (Entry m nd # es) (n # k # p) =
     (if m = n then
        (case nd of
           Dir sub \<Rightarrow> Entry m (Dir (removePath sub (k # p))) # removePath es (n # k # p)
         | _ \<Rightarrow> Entry m nd # removePath es (n # k # p))
      else Entry m nd # removePath es (n # k # p))"

subsection \<open>The environment: external programs and the operating system\<close>

text \<open>The programs the tool starts with \<^verbatim>\<open>spawnSync\<close>, each with the arguments that vary:
  \<^item> \<open>Which name\<close>: \<^verbatim>\<open>which name\<close>;
  \<^item> \<open>LibreOffice bin tmpDir filePath\<close>:
    \<^verbatim>\<open>bin --headless --convert-to pdf --outdir tmpDir filePath\<close>;
  \<^item> \<open>Identify pdf\<close>: \<^verbatim>\<open>identify -format %n\n pdf[0]\<close>;
  \<^item> \<open>PdfInfo pdf\<close>: \<^verbatim>\<open>pdfinfo pdf\<close>;
  \<^item> \<open>Pdftoppm dpi quality pdf prefix\<close>:
    \<^verbatim>\<open>pdftoppm -jpeg -r dpi -jpegopt quality=quality pdf prefix\<close>;
  \<^item> \<open>Convert jpg size quality\<close>: \<^verbatim>\<open>convert jpg -resize WxH! -quality quality jpg\<close>.
  The PDF argument is \<open>None\<close> where the source would pass \<^verbatim>\<open>undefined\<close>.\<close>

datatype command =
    Which string
  | LibreOffice string path path
  | Identify "path option"
  | PdfInfo "path option"
  | Pdftoppm number number "path option" path
  | Convert path dimensions number

text \<open>What \<^verbatim>\<open>spawnSync\<close> returns: the program could not be started (status, stdout and
  stderr are \<^verbatim>\<open>null\<close>), or it ended with a status (\<^verbatim>\<open>null\<close> when a signal killed it) and
  its captured standard output and standard error.\<close>

datatype spawned = NotStarted | Ended "int option" string string

fun status :: "spawned \<Rightarrow> int option" where
  "status NotStarted = None"
| "status (Ended s out err) = s"

fun stdout :: "spawned \<Rightarrow> string option" where
  "stdout NotStarted = None"
| "stdout (Ended s out err) = Some out"

text \<open>The text of \<^verbatim>\<open>${r.stderr || r.stdout}\<close>.\<close>

fun diagnostic :: "spawned \<Rightarrow> string" where
  "diagnostic NotStarted = ''null''"
| "diagnostic (Ended s out err) = (if err \<noteq> [] then err else out)"

record env =
  cwd :: path
  homedir :: string
  tmpdir :: path
  run :: "command \<Rightarrow> entry list \<Rightarrow> spawned \<times> entry list"
  mkdtempSuffix :: "entry list \<Rightarrow> string"
  rmSyncFails :: "path \<Rightarrow> entry list \<Rightarrow> bool"

record world =
  files :: "entry list"
  console :: "consoleLine list"

definition print :: "consoleLine \<Rightarrow> world \<Rightarrow> world" where
  "print l w = w\<lparr>console := console w @ [l]\<rparr>"

definition spawnSync :: "env \<Rightarrow> command \<Rightarrow> world \<Rightarrow> spawned \<times> world" where
  "spawnSync e cmd w = (case run e cmd (files w) of (r, fs') \<Rightarrow> (r, w\<lparr>files := fs'\<rparr>))"

text \<open>\<^verbatim>\<open>mkdtempSync(path.join(os.tmpdir(), "word2jpg-"))\<close>: a new directory whose name is the
  prefix and the characters the system chose; \<open>None\<close> when the call throws.\<close>

definition mkdtempSync :: "env \<Rightarrow> entry list \<Rightarrow> (path \<times> entry list) option" where
  "mkdtempSync e fs =
     (let tmp = tmpdir e @ [''word2jpg-'' @ mkdtempSuffix e fs]
      in case lookup fs (tmpdir e) of
           Some (Dir es) \<Rightarrow>
             (if lookup fs tmp = None
              then (case mkdirp fs tmp of None \<Rightarrow> None | Some fs' \<Rightarrow> Some (tmp, fs'))
              else None)
         | _ \<Rightarrow> None)"

subsection \<open>resolveLibreOffice and checkDependencies\<close>

definition whichFound :: "spawned \<Rightarrow> bool" where
  "whichFound r = (status r = Some 0 \<and> (case stdout r of None \<Rightarrow> False | Some out \<Rightarrow> trim out \<noteq> []))"

definition whichPath :: "spawned \<Rightarrow> string" where
  "whichPath r = (case stdout r of None \<Rightarrow> [] | Some out \<Rightarrow> trim out)"

definition resolveLibreOffice :: "env \<Rightarrow> world \<Rightarrow> string \<times> world" where
  "resolveLibreOffice e w =
     (let mac1 = ''/Applications/LibreOffice.app/Contents/MacOS/soffice'';
          mac2 = homedir e @ ''/Applications/LibreOffice.app/Contents/MacOS/soffice''
      in if existsSync (files w) (resolve (cwd e) mac1) then (mac1, w)
         else if existsSync (files w) (resolve (cwd e) mac2) then (mac2, w)
         else (case spawnSync e (Which ''libreoffice'') w of
                 (r1, w1) \<Rightarrow>
                   if whichFound r1 then (whichPath r1, w1)
                   else (case spawnSync e (Which ''soffice'') w1 of
                           (r2, w2) \<Rightarrow> if whichFound r2 then (whichPath r2, w2) else ([], w2))))"

definition checkDependencies :: "env \<Rightarrow> bool \<Rightarrow> world \<Rightarrow> (abort + unit) \<times> world" where
  "checkDependencies e needsResize w =
     (case resolveLibreOffice e w of
        (bin, w1) \<Rightarrow>
          if bin = [] then (Inl (Exit 1), print LibreOfficeMissing w1)
          else (case spawnSync e (Which ''pdftoppm'') w1 of
                  (r2, w2) \<Rightarrow>
                    if status r2 \<noteq> Some 0 then (Inl (Exit 1), print PdftoppmMissing w2)
                    else if needsResize then
                      (case spawnSync e (Which ''convert'') w2 of
                         (r3, w3) \<Rightarrow>
                           if status r3 \<noteq> Some 0 then (Inl (Exit 1), print ConvertMissing w3)
                           else (Inr (), w3))
                    else (Inr (), w2)))"

subsection \<open>collectWordFiles\<close>

definition isWordExtension :: "string \<Rightarrow> bool" where
  "isWordExtension ext = (toLowerCase ext = ''.docx'' \<or> toLowerCase ext = ''.dotm'')"

text \<open>\<^verbatim>\<open>scanDir\<close> over the entries of a directory: the paths pushed to \<^verbatim>\<open>files\<close>, in the
  order they are pushed.\<close>

fun scanDir :: "bool \<Rightarrow> path \<Rightarrow> entry list \<Rightarrow> path list" where
  "scanDir r dir [] = []"
| "scanDir r dir (Entry n (Dir sub) # es) =
     (if r then scanDir r (path_join dir n) sub else []) @ scanDir r dir es"
| "scanDir r dir (Entry n File # es) =
     (if isWordExtension (extname n) then [path_join dir n] else []) @ scanDir r dir es"
| "scanDir r dir (Entry n Other # es) = scanDir r dir es"

definition collectWordFiles :: "world \<Rightarrow> path \<Rightarrow> bool \<Rightarrow> (abort + path list) \<times> world" where
  "collectWordFiles w p r =
     (case lookup (files w) p of
        None \<Rightarrow> (Inl (Uncaught (JsError ''ENOENT'')), w)
      | Some File \<Rightarrow>
          if isWordExtension (path_extname p) then (Inr [p], w)
          else (Inl (Exit 1), print (NotWordDocument p) w)
      | Some Other \<Rightarrow> (Inl (Uncaught (JsError ''ENOTDIR'')), w)
      | Some (Dir es) \<Rightarrow> (Inr (scanDir r p es), w))"

subsection \<open>convertFile\<close>

text \<open>\<^verbatim>\<open>readdirSync(tmpDir).filter((f) => f.endsWith(".pdf")).map((f) => path.join(tmpDir, f))\<close>\<close>

definition pdfsIn :: "entry list \<Rightarrow> path \<Rightarrow> exn + path list" where
  "pdfsIn fs tmpDir =
     (case readdirSync fs tmpDir of
        None \<Rightarrow> Inl (JsError ''ENOENT'')
      | Some names \<Rightarrow> Inr (map (path_join tmpDir) (filter (endsWith ''.pdf'') names)))"

text \<open>Locating the PDF: the error thrown, or \<^verbatim>\<open>actualPdf\<close> (the first element of the list,
  \<^verbatim>\<open>undefined\<close> for the empty list).\<close>

definition locatePdf :: "entry list \<Rightarrow> path \<Rightarrow> string \<Rightarrow> exn + path option" where
  "locatePdf fs tmpDir base =
     (let pdfFile = path_join tmpDir (base @ ''.pdf'')
      in if \<not> existsSync fs pdfFile then
           (case pdfsIn fs tmpDir of
              Inl e \<Rightarrow> Inl e
            | Inr [] \<Rightarrow> Inl NoPdfFound
            | Inr (p # ps) \<Rightarrow> Inr (Some p))
         else
           (case pdfsIn fs tmpDir of
              Inl e \<Rightarrow> Inl e
            | Inr [] \<Rightarrow> Inr None
            | Inr (p # ps) \<Rightarrow> Inr (Some p)))"

text \<open>The first match of \<^verbatim>\<open>/Pages:\s+(\d+)/\<close> in a text: its group.\<close>

definition pagesAt :: "string \<Rightarrow> string option" where
  "pagesAt s =
     (if startsWith ''Pages:'' s then
        (let r = drop 6 s; sp = takeWhile isWhite r; ds = takeWhile isDigit (dropWhile isWhite r)
         in if sp \<noteq> [] \<and> ds \<noteq> [] then Some ds else None)
      else None)"

fun findPages :: "string \<Rightarrow> string option" where
  "findPages [] = None"
| "findPages (c # cs) = (case pagesAt (c # cs) of Some ds \<Rightarrow> Some ds | None \<Rightarrow> findPages cs)"

text \<open>Step 2 of the source: both programs are started, and only the output of
  \<^verbatim>\<open>pdfinfo\<close> is read. With constant program names \<^verbatim>\<open>spawnSync\<close> does not throw, so the
  inner \<^verbatim>\<open>catch\<close> has nothing to catch.\<close>

definition queryPageCount :: "env \<Rightarrow> path option \<Rightarrow> world \<Rightarrow> number \<times> world" where
  "queryPageCount e actualPdf w =
     (case spawnSync e (Identify actualPdf) w of
        (infoResult, w1) \<Rightarrow>
          (case spawnSync e (PdfInfo actualPdf) w1 of
             (pdfInfoResult, w2) \<Rightarrow>
               (if status pdfInfoResult = Some 0 then
                  (case stdout pdfInfoResult of
                     None \<Rightarrow> Num 1
                   | Some out \<Rightarrow> (case findPages out of None \<Rightarrow> Num 1 | Some ds \<Rightarrow> parseInt ds))
                else Num 1, w2)))"

text \<open>The loop of step 4 over \<^verbatim>\<open>outputFiles\<close>.\<close>

fun resizeAll :: "env \<Rightarrow> dimensions \<Rightarrow> number \<Rightarrow> path list \<Rightarrow> world \<Rightarrow> (exn + unit) \<times> world" where
  "resizeAll e d q [] w = (Inr (), w)"
| "resizeAll e d q (jpgFile # rest) w =
     (case spawnSync e (Convert jpgFile d q) w of
        (resizeResult, w1) \<Rightarrow>
          if status resizeResult \<noteq> Some 0 then (Inl (ResizeError (diagnostic resizeResult)), w1)
          else resizeAll e d q rest w1)"

text \<open>Step 1 of the \<^verbatim>\<open>try\<close> block and the search for the PDF: the exception thrown, or
  \<^verbatim>\<open>actualPdf\<close>. \<^verbatim>\<open>spawnSync\<close> throws a \<^verbatim>\<open>TypeError\<close> when the program name is the
  empty string.\<close>

definition stepPdf :: "env \<Rightarrow> path \<Rightarrow> string \<Rightarrow> path \<Rightarrow> world \<Rightarrow> (exn + path option) \<times> world" where
  "stepPdf e filePath base tmpDir w =
     (case resolveLibreOffice e (print ConvertingToPdf w) of
        (libreOfficeBin, w1) \<Rightarrow>
          if libreOfficeBin = [] then (Inl (JsError ''TypeError [ERR_INVALID_ARG_VALUE]''), w1)
          else
            (case spawnSync e (LibreOffice libreOfficeBin tmpDir filePath) w1 of
               (libreResult, w2) \<Rightarrow>
                 if status libreResult \<noteq> Some 0
                 then (Inl (LibreOfficeError (diagnostic libreResult)), w2)
                 else (locatePdf (files w2) tmpDir base, w2)))"

text \<open>Step 3 and the collection of the output files: the exception thrown, or
  \<^verbatim>\<open>outputFiles\<close>. The names are sorted by their bytes, which is the order of
  \<^verbatim>\<open>Array.prototype.sort()\<close> (by UTF-16 code units) for all names without characters
  beyond U+FFFF.\<close>

definition stepJpg ::
  "env \<Rightarrow> string \<Rightarrow> path \<Rightarrow> number \<Rightarrow> number \<Rightarrow> path option \<Rightarrow> number \<Rightarrow> world
     \<Rightarrow> (exn + path list) \<times> world" where
  "stepJpg e base fileOutputDir dpi' quality' actualPdf pageCount w =
     (case spawnSync e
             (Pdftoppm dpi' quality' actualPdf (path_join fileOutputDir (base @ ''_page'')))
             (print (CreatingJpgs pageCount dpi') w) of
        (convertResult, w1) \<Rightarrow>
          if status convertResult \<noteq> Some 0
          then (Inl (PdftoppmError (diagnostic convertResult)), w1)
          else
            (case readdirSync (files w1) fileOutputDir of
               None \<Rightarrow> (Inl (JsError ''ENOENT''), w1)
             | Some names \<Rightarrow>
                 (Inr (map (path_join fileOutputDir) (sort (filter (endsWith ''.jpg'') names))),
                  w1)))"

text \<open>Step 4, run only when a resize target is configured.\<close>

definition stepResize ::
  "env \<Rightarrow> dimensions option \<Rightarrow> number \<Rightarrow> path list \<Rightarrow> world \<Rightarrow> (exn + path list) \<times> world" where
  "stepResize e resize' quality' outs w =
     (case resize' of
        None \<Rightarrow> (Inr outs, w)
      | Some d \<Rightarrow>
          (case resizeAll e d quality' outs (print (Resizing (width d) (height d)) w) of
             (Inl ex, w1) \<Rightarrow> (Inl ex, w1)
           | (Inr u, w1) \<Rightarrow> (Inr outs, w1)))"

text \<open>The \<^verbatim>\<open>try\<close> block: the exception thrown in it, or \<^verbatim>\<open>outputFiles\<close>.\<close>

definition tryBlock ::
  "env \<Rightarrow> path \<Rightarrow> string \<Rightarrow> path \<Rightarrow> path \<Rightarrow> number \<Rightarrow> number \<Rightarrow> dimensions option \<Rightarrow> world
     \<Rightarrow> (exn + path list) \<times> world" where
  "tryBlock e filePath base fileOutputDir tmpDir dpi' quality' resize' w =
     (case stepPdf e filePath base tmpDir w of
        (Inl ex, w1) \<Rightarrow> (Inl ex, w1)
      | (Inr actualPdf, w1) \<Rightarrow>
          (case queryPageCount e actualPdf w1 of
             (pageCount, w2) \<Rightarrow>
               (case stepJpg e base fileOutputDir dpi' quality' actualPdf pageCount w2 of
                  (Inl ex, w3) \<Rightarrow> (Inl ex, w3)
                | (Inr outs, w3) \<Rightarrow> stepResize e resize' quality' outs w3)))"

text \<open>The \<^verbatim>\<open>finally\<close> block: \<^verbatim>\<open>rmSync\<close> inside a \<^verbatim>\<open>try\<close> whose \<^verbatim>\<open>catch\<close> ignores the error.\<close>

definition finallyBlock :: "env \<Rightarrow> path \<Rightarrow> world \<Rightarrow> world" where
  "finallyBlock e tmpDir w =
     (if rmSyncFails e tmpDir (files w) then w else w\<lparr>files := removePath (files w) tmpDir\<rparr>)"

definition fileOutputDirOf :: "path \<Rightarrow> path \<Rightarrow> path" where
  "fileOutputDirOf filePath outDir = path_join outDir (basename filePath (path_extname filePath))"

definition convertFile ::
  "env \<Rightarrow> path \<Rightarrow> path \<Rightarrow> number \<Rightarrow> number \<Rightarrow> dimensions option \<Rightarrow> world
     \<Rightarrow> (abort + conversionResult) \<times> world" where
  "convertFile e filePath outDir dpi' quality' resize' w =
     (let base = basename filePath (path_extname filePath);
          fileOutputDir = path_join outDir base
      in case mkdirp (files w) fileOutputDir of
           None \<Rightarrow> (Inl (Uncaught (JsError ''EEXIST'')), w)
         | Some fs1 \<Rightarrow>
             (case mkdtempSync e fs1 of
                None \<Rightarrow> (Inl (Uncaught (JsError ''mkdtemp'')), w\<lparr>files := fs1\<rparr>)
              | Some (tmpDir, fs2) \<Rightarrow>
                  (case tryBlock e filePath base fileOutputDir tmpDir dpi' quality' resize'
                          (w\<lparr>files := fs2\<rparr>) of
                     (Inr outs, w3) \<Rightarrow>
                       (Inr \<lparr>source = filePath, pages = length outs, outputFiles = outs,
                             error = None\<rparr>,
                        finallyBlock e tmpDir w3)
                   | (Inl ex, w3) \<Rightarrow>
                       (Inr \<lparr>source = filePath, pages = 0, outputFiles = [],
                             error = Some (message ex)\<rparr>,
                        finallyBlock e tmpDir w3))))"

subsection \<open>main\<close>

record tally =
  results :: "conversionResult list"
  successCount :: nat
  errorCount :: nat

text \<open>\<^verbatim>\<open>if (result.error)\<close>: an absent or empty string is falsy.\<close>

definition truthy :: "string option \<Rightarrow> bool" where
  "truthy x = (case x of None \<Rightarrow> False | Some s \<Rightarrow> s \<noteq> [])"

text \<open>The conversion loop of \<^verbatim>\<open>main\<close> from index \<open>i\<close> on. In the success branch
  \<^verbatim>\<open>path.dirname(result.outputFiles[0])\<close> throws a \<^verbatim>\<open>TypeError\<close> when the list is empty.\<close>

fun convertLoop ::
  "env \<Rightarrow> config \<Rightarrow> nat \<Rightarrow> nat \<Rightarrow> path list \<Rightarrow> tally \<Rightarrow> world \<Rightarrow> (abort + tally) \<times> world" where
  "convertLoop e c n i [] t w = (Inr t, w)"
| "convertLoop e c n i (file # rest) t w =
     (case convertFile e file (outputDir c) (dpi c) (quality c) (resize c)
             (print (Progress (i + 1) n (basename file [])) w) of
        (Inl a, w1) \<Rightarrow> (Inl a, w1)
      | (Inr result, w1) \<Rightarrow>
          if truthy (error result) then
            convertLoop e c n (i + 1) rest
              (t\<lparr>results := results t @ [result], errorCount := errorCount t + 1\<rparr>)
              (print (ErrorLine (case error result of None \<Rightarrow> [] | Some m \<Rightarrow> m)) w1)
          else
            (case outputFiles result of
               [] \<Rightarrow> (Inl (Uncaught argumentTypeError), w1)
             | f # fs \<Rightarrow>
                 convertLoop e c n (i + 1) rest
                   (t\<lparr>results := results t @ [result], successCount := successCount t + 1\<rparr>)
                   (print (SuccessLine (pages result) (cwd e) (dirname f)) w1)))"

definition main :: "env \<Rightarrow> string list \<Rightarrow> world \<Rightarrow> (abort + unit) \<times> world" where
  "main e args w =
     (case parseArgs (cwd e) args of
        Inl (ls, a) \<Rightarrow> (Inl a, w\<lparr>console := console w @ Banner # ls\<rparr>)
      | Inr c \<Rightarrow>
          (case checkDependencies e (resize c \<noteq> None) (print Banner w) of
             (Inl a, w1) \<Rightarrow> (Inl a, w1)
           | (Inr u, w1) \<Rightarrow>
               if \<not> existsSync (files w1) (inputPath c)
               then (Inl (Exit 1), print (InputNotFound (inputPath c)) w1)
               else
                 (case collectWordFiles w1 (inputPath c) (recursive c) of
                    (Inl a, w2) \<Rightarrow> (Inl a, w2)
                  | (Inr fls, w2) \<Rightarrow>
                      if fls = [] then (Inl (Exit 0), print NoWordFiles w2)
                      else
                        (case mkdirp (files w2) (outputDir c) of
                           None \<Rightarrow>
                             (Inl (Uncaught (JsError ''EEXIST'')),
                              print (RunInfo (outputDir c) (length fls) (dpi c) (quality c) (resize c)) w2)
                         | Some fs' \<Rightarrow>
                             (case convertLoop e c (length fls) 0 fls
                                     \<lparr>results = [], successCount = 0, errorCount = 0\<rparr>
                                     ((print (RunInfo (outputDir c) (length fls) (dpi c) (quality c)
                                                (resize c)) w2)\<lparr>files := fs'\<rparr>) of
                                (Inl a, w3) \<Rightarrow> (Inl a, w3)
                              | (Inr t, w3) \<Rightarrow>
                                  (Inr (),
                                   print (Summary (successCount t) (errorCount t)
                                            (sum_list (map pages (results t))) (outputDir c)) w3))))))"

text \<open>The program: \<^verbatim>\<open>main().catch(...)\<close>. The exit code is 0 when \<^verbatim>\<open>main\<close> returns, the
  argument of \<^verbatim>\<open>process.exit\<close> when it was called, and 1 when an exception escaped.\<close>

definition program :: "env \<Rightarrow> string list \<Rightarrow> world \<Rightarrow> int \<times> world" where
  "program e args w =
     (case main e args w of
        (Inr u, w') \<Rightarrow> (0, w')
      | (Inl (Exit n), w') \<Rightarrow> (n, w')
      | (Inl (Uncaught ex), w') \<Rightarrow> (1, print (UnexpectedError (message ex)) w'))"

subsection \<open>Vocabulary for the properties of parseArgs\<close>

text \<open>The shape of a resize argument, the flags by name, and two readings of an argument
  list that follow the scan of \<^verbatim>\<open>parseArgs\<close>: \<open>wholeOptions\<close> holds when the list consists of
  complete options (each value-taking flag with its value, a resize value that matches, no
  help flag), and \<open>inputTokens\<close> lists the tokens that are assigned to the input path (the
  values of the input flag and the tokens that stand alone and do not start with a dash).\<close>

definition timesSign :: string where
  "timesSign = [CHR 0xC3, CHR 0x97]"

definition isResizeSeparator :: "string \<Rightarrow> bool" where
  "isResizeSeparator sep = (sep = ''x'' \<or> sep = ''X'' \<or> sep = timesSign)"

definition digitString :: "string \<Rightarrow> bool" where
  "digitString g = (g \<noteq> [] \<and> list_all isDigit g)"

definition isHelpFlag :: "string \<Rightarrow> bool" where
  "isHelpFlag a = (a = ''-h'' \<or> a = ''--help'')"

definition isResizeFlag :: "string \<Rightarrow> bool" where
  "isResizeFlag a = (a = ''-s'' \<or> a = ''--resize'')"

definition isInputFlag :: "string \<Rightarrow> bool" where
  "isInputFlag a = (a = ''-i'' \<or> a = ''--input'')"

definition isOutputFlag :: "string \<Rightarrow> bool" where
  "isOutputFlag a = (a = ''-o'' \<or> a = ''--output'')"

definition isDpiFlag :: "string \<Rightarrow> bool" where
  "isDpiFlag a = (a = ''-d'' \<or> a = ''--dpi'')"

definition isQualityFlag :: "string \<Rightarrow> bool" where
  "isQualityFlag a = (a = ''-q'' \<or> a = ''--quality'')"

definition isRecursiveFlag :: "string \<Rightarrow> bool" where
  "isRecursiveFlag a = (a = ''-r'' \<or> a = ''--recursive'')"

definition takesValue :: "string \<Rightarrow> bool" where
  "takesValue a =
     (isInputFlag a \<or> isOutputFlag a \<or> isDpiFlag a \<or> isQualityFlag a \<or> isResizeFlag a)"

fun wholeOptions :: "string list \<Rightarrow> bool" where
  "wholeOptions [] = True"
| "wholeOptions [a] = (\<not> isHelpFlag a \<and> \<not> takesValue a)"
| "wholeOptions (a # v # rest) =
     (\<not> isHelpFlag a \<and>
      (if takesValue a then (isResizeFlag a \<longrightarrow> matchResize v \<noteq> None) \<and> wholeOptions rest
       else wholeOptions (v # rest)))"

fun inputTokens :: "string list \<Rightarrow> string list" where
  "inputTokens [] = []"
| "inputTokens [a] = (if startsWith ''-'' a then [] else [a])"
| "inputTokens (a # v # rest) =
     (if isInputFlag a then v # inputTokens rest
      else if takesValue a then inputTokens rest
      else if startsWith ''-'' a then inputTokens (v # rest)
      else a # inputTokens (v # rest))"

text \<open>The scan of \<^verbatim>\<open>parseArgs\<close> reaches a resize flag whose value does not have the form
  of a resize argument: no help flag comes before it, and every value-taking flag before it
  has its value.\<close>

fun malformedResize :: "string list \<Rightarrow> bool" where
  "malformedResize [] = False"
| "malformedResize [a] = False"
| "malformedResize (a # v # rest) =
     (\<not> isHelpFlag a \<and>
      (if takesValue a
       then (if isResizeFlag a \<and> matchResize v = None then True else malformedResize rest)
       else malformedResize (v # rest)))"

subsection \<open>Vocabulary for the properties of the conversion\<close>

definition isDirectory :: "entry list \<Rightarrow> path \<Rightarrow> bool" where
  "isDirectory fs p = (case lookup fs p of Some (Dir es) \<Rightarrow> True | _ \<Rightarrow> False)"

text \<open>The page-count lookup: the two programs of step 2.\<close>

fun isLookup :: "command \<Rightarrow> bool" where
  "isLookup (Identify p) = True"
| "isLookup (PdfInfo p) = True"
| "isLookup c = False"

text \<open>An environment in which the lookup programs report what \<open>g\<close> says, and everything
  else is as before (their effect on the file system included).\<close>

definition withLookupOutcome :: "(command \<Rightarrow> entry list \<Rightarrow> spawned) \<Rightarrow> env \<Rightarrow> env" where
  "withLookupOutcome g e =
     e\<lparr>run := (\<lambda>cmd fs. if isLookup cmd then (g cmd fs, snd (run e cmd fs)) else run e cmd fs)\<rparr>"

fun erasePageCount :: "consoleLine \<Rightarrow> consoleLine" where
  "erasePageCount (CreatingJpgs pageCount d) = CreatingJpgs NaN d"
| "erasePageCount l = l"

text \<open>Two states that differ at most in the page count of a progress line.\<close>

definition similar :: "world \<Rightarrow> world \<Rightarrow> bool" where
  "similar w' w =
     (files w' = files w \<and> map erasePageCount (console w') = map erasePageCount (console w))"

text \<open>Regular files below a directory, by their path relative to it.\<close>

inductive fileBelow :: "entry list \<Rightarrow> path \<Rightarrow> bool" where
  here: "Entry n File \<in> set es \<Longrightarrow> fileBelow es [n]"
| deeper: "Entry d (Dir sub) \<in> set es \<Longrightarrow> fileBelow sub rel \<Longrightarrow> fileBelow es (d # rel)"

text \<open>The names of the eligible documents among the entries of a directory.\<close>

fun topLevelDocuments :: "entry list \<Rightarrow> string list" where
  "topLevelDocuments [] = []"
| "topLevelDocuments (Entry n File # es) =
     (if isWordExtension (extname n) then n # topLevelDocuments es else topLevelDocuments es)"
| "topLevelDocuments (Entry n nd # es) = topLevelDocuments es"

text \<open>The console lines that precede an exit with code 1: the messages of the fatal
  conditions, and the report of the top-level handler.\<close>

fun fatalLine :: "consoleLine \<Rightarrow> bool" where
  "fatalLine (InvalidResize raw) = True"
| "fatalLine LibreOfficeMissing = True"
| "fatalLine PdftoppmMissing = True"
| "fatalLine ConvertMissing = True"
| "fatalLine (InputNotFound p) = True"
| "fatalLine (NotWordDocument p) = True"
| "fatalLine (UnexpectedError m) = True"
| "fatalLine l = False"

text \<open>The four failures of the pipeline, read off the calls that the \<^verbatim>\<open>try\<close> block of
  \<^verbatim>\<open>convertFile\<close> makes from the state \<open>w\<close> in which it starts:
  \<^item> \<open>converterFails\<close>: LibreOffice was found and its run ended with a status other than 0
    (or could not be started);
  \<^item> \<open>pdfMissing\<close>: its run ended with status 0, the PDF named after the document does not
    exist, and the scratch directory lists no name ending in \<^verbatim>\<open>.pdf\<close>;
  \<^item> \<open>rasteriserFails\<close>: a PDF was located and the run of \<^verbatim>\<open>pdftoppm\<close> ended with a status
    other than 0;
  \<^item> \<open>resizeFails\<close>: a resize target is configured, the pages were written and listed, and
    one of the calls of \<^verbatim>\<open>convert\<close>, made for the output files in their order, ended with a
    status other than 0 (\<open>resizeCallFails\<close>, for the calls from one file on).\<close>

definition converterFails :: "env \<Rightarrow> path \<Rightarrow> path \<Rightarrow> world \<Rightarrow> bool" where
  "converterFails e filePath tmpDir w =
     (case resolveLibreOffice e (print ConvertingToPdf w) of
        (bin, w1) \<Rightarrow>
          bin \<noteq> [] \<and> status (fst (spawnSync e (LibreOffice bin tmpDir filePath) w1)) \<noteq> Some 0)"

definition pdfMissing :: "env \<Rightarrow> path \<Rightarrow> string \<Rightarrow> path \<Rightarrow> world \<Rightarrow> bool" where
  "pdfMissing e filePath base tmpDir w =
     (case resolveLibreOffice e (print ConvertingToPdf w) of
        (bin, w1) \<Rightarrow>
          bin \<noteq> [] \<and>
          (case spawnSync e (LibreOffice bin tmpDir filePath) w1 of
             (r, w2) \<Rightarrow>
               status r = Some 0 \<and>
               \<not> existsSync (files w2) (path_join tmpDir (base @ ''.pdf'')) \<and>
               (case readdirSync (files w2) tmpDir of
                  None \<Rightarrow> False
                | Some names \<Rightarrow> filter (endsWith ''.pdf'') names = [])))"

definition rasteriserFails ::
  "env \<Rightarrow> path \<Rightarrow> string \<Rightarrow> path \<Rightarrow> path \<Rightarrow> number \<Rightarrow> number \<Rightarrow> world \<Rightarrow> bool" where
  "rasteriserFails e filePath base fileOutputDir tmpDir dpi' quality' w =
     (case stepPdf e filePath base tmpDir w of
        (Inl ex, w1) \<Rightarrow> False
      | (Inr actualPdf, w1) \<Rightarrow>
          (case queryPageCount e actualPdf w1 of
             (pageCount, w2) \<Rightarrow>
               status (fst (spawnSync e
                              (Pdftoppm dpi' quality' actualPdf
                                 (path_join fileOutputDir (base @ ''_page'')))
                              (print (CreatingJpgs pageCount dpi') w2))) \<noteq> Some 0))"

fun resizeCallFails :: "env \<Rightarrow> dimensions \<Rightarrow> number \<Rightarrow> path list \<Rightarrow> world \<Rightarrow> bool" where
  "resizeCallFails e d q [] w = False"
| "resizeCallFails e d q (jpgFile # rest) w =
     (case spawnSync e (Convert jpgFile d q) w of
        (r, w1) \<Rightarrow> status r \<noteq> Some 0 \<or> resizeCallFails e d q rest w1)"

definition resizeFails ::
  "env \<Rightarrow> path \<Rightarrow> string \<Rightarrow> path \<Rightarrow> path \<Rightarrow> number \<Rightarrow> number \<Rightarrow> dimensions option \<Rightarrow> world
     \<Rightarrow> bool" where
  "resizeFails e filePath base fileOutputDir tmpDir dpi' quality' resize' w =
     (case resize' of
        None \<Rightarrow> False
      | Some d \<Rightarrow>
          (case stepPdf e filePath base tmpDir w of
             (Inl ex, w1) \<Rightarrow> False
           | (Inr actualPdf, w1) \<Rightarrow>
               (case queryPageCount e actualPdf w1 of
                  (pageCount, w2) \<Rightarrow>
                    (case stepJpg e base fileOutputDir dpi' quality' actualPdf pageCount w2 of
                       (Inl ex, w3) \<Rightarrow> False
                     | (Inr outs, w3) \<Rightarrow>
                         resizeCallFails e d quality' outs
                           (print (Resizing (width d) (height d)) w3)))))"

text \<open>The fatal conditions before the loop, read off the calls that \<^verbatim>\<open>main\<close> makes from
  the state \<open>w\<close> after the banner:
  \<^item> \<open>missingTool\<close>: LibreOffice is not found, or \<^verbatim>\<open>which pdftoppm\<close> ends with a status other
    than 0, or a resize target is configured and \<^verbatim>\<open>which convert\<close> ends with a status other
    than 0;
  \<^item> \<open>inputMissing\<close>: the input path does not exist after the dependency check;
  \<^item> \<open>notWordDocument\<close>: the input path is a regular file whose extension is not one of the
    two accepted ones;
  \<^item> \<open>fatalCondition\<close>: the resize value is malformed, or the arguments give a configuration
    and one of the three conditions above holds.\<close>

definition missingTool :: "env \<Rightarrow> bool \<Rightarrow> world \<Rightarrow> bool" where
  "missingTool e needsResize w =
     (case resolveLibreOffice e w of
        (bin, w1) \<Rightarrow>
          bin = [] \<or>
          (case spawnSync e (Which ''pdftoppm'') w1 of
             (r2, w2) \<Rightarrow>
               status r2 \<noteq> Some 0 \<or>
               (needsResize \<and> status (fst (spawnSync e (Which ''convert'') w2)) \<noteq> Some 0)))"

definition inputMissing :: "env \<Rightarrow> config \<Rightarrow> world \<Rightarrow> bool" where
  "inputMissing e c w =
     (\<not> existsSync (files (snd (checkDependencies e (resize c \<noteq> None) w))) (inputPath c))"

definition notWordDocument :: "env \<Rightarrow> config \<Rightarrow> world \<Rightarrow> bool" where
  "notWordDocument e c w =
     (lookup (files (snd (checkDependencies e (resize c \<noteq> None) w))) (inputPath c) = Some File \<and>
      \<not> isWordExtension (path_extname (inputPath c)))"

definition fatalCondition :: "env \<Rightarrow> string list \<Rightarrow> world \<Rightarrow> bool" where
  "fatalCondition e args w =
     (malformedResize args \<or>
      (case parseArgs (cwd e) args of
         Inl x \<Rightarrow> False
       | Inr c \<Rightarrow>
           missingTool e (resize c \<noteq> None) (print Banner w) \<or>
           inputMissing e c (print Banner w) \<or>
           notWordDocument e c (print Banner w)))"

text \<open>The outcome of the conversion loop of \<^verbatim>\<open>main\<close>, when \<^verbatim>\<open>main\<close> gets as far as the
  loop: \<open>None\<close> when it ends before.\<close>

definition loopOutcome :: "env \<Rightarrow> string list \<Rightarrow> world \<Rightarrow> ((abort + tally) \<times> world) option" where
  "loopOutcome e args w =
     (case parseArgs (cwd e) args of
        Inl x \<Rightarrow> None
      | Inr c \<Rightarrow>
          (case checkDependencies e (resize c \<noteq> None) (print Banner w) of
             (Inl a, w1) \<Rightarrow> None
           | (Inr u, w1) \<Rightarrow>
               if \<not> existsSync (files w1) (inputPath c) then None
               else
                 (case collectWordFiles w1 (inputPath c) (recursive c) of
                    (Inl a, w2) \<Rightarrow> None
                  | (Inr fls, w2) \<Rightarrow>
                      if fls = [] then None
                      else
                        (case mkdirp (files w2) (outputDir c) of
                           None \<Rightarrow> None
                         | Some fs' \<Rightarrow>
                             Some (convertLoop e c (length fls) 0 fls
                                     \<lparr>results = [], successCount = 0, errorCount = 0\<rparr>
                                     ((print (RunInfo (outputDir c) (length fls) (dpi c)
                                                (quality c) (resize c)) w2)\<lparr>files := fs'\<rparr>))))))"

subsection \<open>Example environments\<close>

text \<open>A file system with a directory of documents, and four sets of external programs:
  one in which LibreOffice fails, one in which every program succeeds, the converter
  writing the PDF and the rasteriser two pages, one in which only the resizer fails, and
  one in which no program is installed.\<close>

definition exampleFiles :: "entry list" where
  "exampleFiles =
     [Entry ''in'' (Dir [Entry ''Report.docx'' File, Entry ''notes.txt'' File,
                         Entry ''Plan.DOTM'' File, Entry ''...docx'' File,
                         Entry ''sub'' (Dir [Entry ''C.docx'' File])]),
      Entry ''tmp'' (Dir []),
      Entry ''photo.jpg'' File]"

definition blockedFiles :: "entry list" where
  "blockedFiles =
     [Entry ''in'' (Dir [Entry ''Report.docx'' File]),
      Entry ''tmp'' (Dir []),
      Entry ''out'' (Dir [Entry ''Report'' File])]"

definition exampleWorld :: world where
  "exampleWorld = \<lparr>files = exampleFiles, console = []\<rparr>"

fun createFile :: "entry list \<Rightarrow> path \<Rightarrow> entry list" where
  "createFile es [] = es"
| "createFile es [n] = es @ [Entry n File]"
| "createFile [] (n # p) = []"
| "createFile (Entry m nd # es) (n # p) =
     (if m = n then (case nd of Dir sub \<Rightarrow> Entry m (Dir (createFile sub p)) # es | _ \<Rightarrow> Entry m nd # es)
      else Entry m nd # createFile es (n # p))"

fun failingTools :: "command \<Rightarrow> entry list \<Rightarrow> spawned \<times> entry list" where
  "failingTools (Which n) fs = (Ended (Some 0) (''/usr/bin/'' @ n) [], fs)"
| "failingTools (LibreOffice b t f) fs = (Ended (Some 1) [] ''Error: source file could not be loaded'', fs)"
| "failingTools c fs = (NotStarted, fs)"

fun workingTools :: "command \<Rightarrow> entry list \<Rightarrow> spawned \<times> entry list" where
  "workingTools (Which n) fs = (Ended (Some 0) (''/usr/bin/'' @ n) [], fs)"
| "workingTools (LibreOffice b t f) fs =
     (Ended (Some 0) [] [], createFile fs (t @ [basename f (path_extname f) @ ''.pdf'']))"
| "workingTools (Identify p) fs = (NotStarted, fs)"
| "workingTools (PdfInfo p) fs = (Ended (Some 0) ''Pages:          2'' [], fs)"
| "workingTools (Pdftoppm d q p pre) fs =
     (Ended (Some 0) [] [],
      createFile (createFile fs (butlast pre @ [last pre @ ''-2.jpg'']))
        (butlast pre @ [last pre @ ''-1.jpg'']))"
| "workingTools (Convert f d q) fs = (Ended (Some 0) [] [], fs)"

definition exampleEnv :: "(command \<Rightarrow> entry list \<Rightarrow> spawned \<times> entry list) \<Rightarrow> bool \<Rightarrow> env" where
  "exampleEnv tools rmFails =
     \<lparr>cwd = [''home''], homedir = ''/home'', tmpdir = [''tmp''], run = tools,
      mkdtempSuffix = (\<lambda>fs. ''Ab3dE9''), rmSyncFails = (\<lambda>p fs. rmFails)\<rparr>"

definition exampleConfig :: config where
  "exampleConfig =
     \<lparr>inputPath = [''in''], outputDir = [''out''], dpi = Num 150, quality = Num 90,
      resize = None, recursive = False\<rparr>"

fun resizeFailingTools :: "command \<Rightarrow> entry list \<Rightarrow> spawned \<times> entry list" where
  "resizeFailingTools (Convert f d q) fs =
     (Ended (Some 1) [] ''convert: no decode delegate for this image format'', fs)"
| "resizeFailingTools c fs = workingTools c fs"

definition absentTools :: "command \<Rightarrow> entry list \<Rightarrow> spawned \<times> entry list" where
  "absentTools c fs = (Ended (Some 1) [] [], fs)"

definition resizeConfig :: config where
  "resizeConfig = exampleConfig\<lparr>resize := Some \<lparr>width = Num 800, height = Num 600\<rparr>\<rparr>"

section \<open>Properties\<close>

subsection \<open>parseArgs\<close>

lemma isDigit_not_white: "isDigit c \<Longrightarrow> \<not> isWhite c"
  by (auto simp: isDigit_def isWhite_def)

lemma isDigit_not_sign: "isDigit c \<Longrightarrow> c \<noteq> CHR ''-'' \<and> c \<noteq> CHR ''+''"
  by (auto simp: isDigit_def)

lemma takeWhile_all: "list_all P xs \<Longrightarrow> takeWhile P xs = xs"
  by (induction xs) auto

lemma parseInt_digits: "digitString g \<Longrightarrow> parseInt g = numberOfNat (decimal g)"
  by (cases g) (auto simp: digitString_def parseInt_def Let_def isDigit_not_white
      isDigit_not_sign takeWhile_all)

lemma toDouble_exact: "n < 2 ^ 53 \<Longrightarrow> toDouble n = n"
  by (simp add: toDouble_def)

lemma numberOfNat_exact: "n < 2 ^ 53 \<Longrightarrow> numberOfNat n = Num (int n)"
proof -
  assume a: "n < 2 ^ 53"
  have "(2::nat) ^ 53 \<le> 2 ^ 1024" by (rule power_increasing) simp_all
  with a have "\<not> (2::nat) ^ 1024 \<le> n" by linarith
  with a show ?thesis by (simp add: numberOfNat_def toDouble_exact Let_def)
qed

lemma separator_not_digit: "isResizeSeparator sep \<Longrightarrow> sep \<noteq> [] \<and> \<not> isDigit (hd sep)"
  by (auto simp: isResizeSeparator_def timesSign_def isDigit_def)

lemma resizeSeparator_append:
  "isResizeSeparator sep \<Longrightarrow> resizeSeparator (sep @ g) = Some g"
  by (auto simp: isResizeSeparator_def timesSign_def resizeSeparator_def startsWith_def)

lemma matchResize_form:
  assumes "digitString g1" "isResizeSeparator sep" "digitString g2"
  shows "matchResize (g1 @ sep @ g2) = Some (g1, g2)"
proof -
  from assms(2) obtain s ss where sep: "sep = s # ss" and nd: "\<not> isDigit s"
    using separator_not_digit[OF assms(2)] by (cases sep) auto
  from assms(1) have all1: "list_all isDigit g1" and ne1: "g1 \<noteq> []"
    by (simp_all add: digitString_def)
  have tw: "takeWhile isDigit (g1 @ sep @ g2) = g1"
    using all1 nd by (simp add: sep takeWhile_append2 list_all_iff)
  have dw: "dropWhile isDigit (g1 @ sep @ g2) = sep @ g2"
    using all1 nd by (simp add: sep dropWhile_append2 list_all_iff)
  show ?thesis
    using assms(3) ne1 by (simp add: matchResize_def tw dw resizeSeparator_append assms(2) digitString_def)
qed

lemma startsWith_split: "startsWith p s \<Longrightarrow> s = p @ drop (length p) s"
  unfolding startsWith_def by (metis append_take_drop_id)

lemma resizeSeparator_Some:
  assumes "resizeSeparator r = Some g"
  shows "\<exists>sep. isResizeSeparator sep \<and> r = sep @ g"
proof -
  consider (x) "startsWith ''x'' r" "g = drop 1 r"
    | (X) "startsWith ''X'' r" "g = drop 1 r"
    | (t) "startsWith timesSign r" "g = drop 2 r"
    using assms unfolding resizeSeparator_def timesSign_def
    by (auto split: if_splits)
  then show ?thesis
  proof cases
    case x
    from startsWith_split[OF x(1)] x(2) have "r = ''x'' @ g" by simp
    then show ?thesis unfolding isResizeSeparator_def by blast
  next
    case X
    from startsWith_split[OF X(1)] X(2) have "r = ''X'' @ g" by simp
    then show ?thesis unfolding isResizeSeparator_def by blast
  next
    case t
    have len: "length timesSign = 2" by (simp add: timesSign_def)
    have "r = timesSign @ drop (length timesSign) r" by (rule startsWith_split[OF t(1)])
    then have "r = timesSign @ g" unfolding len t(2) .
    then show ?thesis unfolding isResizeSeparator_def by blast
  qed
qed

lemma matchResize_Some:
  assumes "matchResize raw = Some (g1, g2)"
  shows "\<exists>sep. raw = g1 @ sep @ g2 \<and> digitString g1 \<and> isResizeSeparator sep \<and> digitString g2"
proof -
  from assms have g1: "g1 = takeWhile isDigit raw" and ne: "g1 \<noteq> []"
    and rs: "resizeSeparator (dropWhile isDigit raw) = Some g2" and d2: "digitString g2"
    by (auto simp: matchResize_def Let_def digitString_def split: if_splits option.splits)
  from rs obtain sep where sep: "isResizeSeparator sep" "dropWhile isDigit raw = sep @ g2"
    using resizeSeparator_Some by blast
  have "raw = takeWhile isDigit raw @ dropWhile isDigit raw" by simp
  then have "raw = g1 @ sep @ g2" using g1 sep(2) by simp
  moreover have "digitString g1"
    using ne g1 by (auto simp: digitString_def list_all_iff dest: set_takeWhileD)
  ultimately show ?thesis using sep(1) d2 by blast
qed


declare parseLoop.simps(2) [simp del]

lemmas flag_defs = isHelpFlag_def isInputFlag_def isOutputFlag_def isDpiFlag_def
  isQualityFlag_def isResizeFlag_def isRecursiveFlag_def

lemma not_dash_flags:
  "\<not> startsWith ''-'' a \<Longrightarrow>
   a \<noteq> ''-h'' \<and> a \<noteq> ''--help'' \<and> a \<noteq> ''-i'' \<and> a \<noteq> ''--input'' \<and> a \<noteq> ''-o'' \<and>
   a \<noteq> ''--output'' \<and> a \<noteq> ''-d'' \<and> a \<noteq> ''--dpi'' \<and> a \<noteq> ''-q'' \<and> a \<noteq> ''--quality'' \<and>
   a \<noteq> ''-s'' \<and> a \<noteq> ''--resize'' \<and> a \<noteq> ''-r'' \<and> a \<noteq> ''--recursive''"
  by (auto simp: startsWith_def)

lemma not_dash_plain: "\<not> startsWith ''-'' a \<Longrightarrow> \<not> isHelpFlag a \<and> \<not> takesValue a"
  by (frule not_dash_flags) (simp add: takesValue_def flag_defs)

lemma flag_starts_with_dash:
  "isRecursiveFlag a \<Longrightarrow> startsWith ''-'' a"
  unfolding isRecursiveFlag_def by (erule disjE) (simp_all add: startsWith_def)

lemma step_recursive:
  "isRecursiveFlag a \<Longrightarrow>
   parseLoop wd (a # rest) c = parseLoop wd rest (c\<lparr>recursive := True\<rparr>)"
  unfolding isRecursiveFlag_def by (erule disjE) (simp_all add: parseLoop.simps(2))

lemma step_ignored:
  "\<not> isHelpFlag a \<Longrightarrow> \<not> takesValue a \<Longrightarrow> \<not> isRecursiveFlag a \<Longrightarrow>
   startsWith ''-'' a \<Longrightarrow> parseLoop wd (a # rest) c = parseLoop wd rest c"
  by (simp add: parseLoop.simps(2) takesValue_def flag_defs)

lemma step_positional:
  "\<not> startsWith ''-'' a \<Longrightarrow>
   parseLoop wd (a # rest) c = parseLoop wd rest (c\<lparr>inputPath := resolve wd a\<rparr>)"
  by (frule not_dash_flags) (simp add: parseLoop.simps(2))

lemma step_input:
  "isInputFlag a \<Longrightarrow>
   parseLoop wd (a # v # rest) c = parseLoop wd rest (c\<lparr>inputPath := resolve wd v\<rparr>)"
  unfolding isInputFlag_def by (erule disjE) (simp_all add: parseLoop.simps(2))

lemma step_output:
  "isOutputFlag a \<Longrightarrow>
   parseLoop wd (a # v # rest) c = parseLoop wd rest (c\<lparr>outputDir := resolve wd v\<rparr>)"
  unfolding isOutputFlag_def by (erule disjE) (simp_all add: parseLoop.simps(2))

lemma step_dpi:
  "isDpiFlag a \<Longrightarrow>
   parseLoop wd (a # v # rest) c = parseLoop wd rest (c\<lparr>dpi := parseInt v\<rparr>)"
  unfolding isDpiFlag_def by (erule disjE) (simp_all add: parseLoop.simps(2))

lemma step_quality:
  "isQualityFlag a \<Longrightarrow>
   parseLoop wd (a # v # rest) c = parseLoop wd rest (c\<lparr>quality := parseInt v\<rparr>)"
  unfolding isQualityFlag_def by (erule disjE) (simp_all add: parseLoop.simps(2))

lemma step_resize:
  "isResizeFlag a \<Longrightarrow> matchResize raw = Some (g1, g2) \<Longrightarrow>
   parseLoop wd (a # raw # rest) c =
     parseLoop wd rest (c\<lparr>resize := Some \<lparr>width = parseInt g1, height = parseInt g2\<rparr>\<rparr>)"
  unfolding isResizeFlag_def by (erule disjE) (simp_all add: parseLoop.simps(2))

lemma step_resize_invalid:
  "isResizeFlag a \<Longrightarrow> matchResize raw = None \<Longrightarrow>
   parseLoop wd (a # raw # rest) c = Inl ([InvalidResize raw], Exit 1)"
  unfolding isResizeFlag_def by (erule disjE) (simp_all add: parseLoop.simps(2))

lemma step_help:
  "isHelpFlag a \<Longrightarrow> parseLoop wd (a # rest) c = Inl ([HelpText], Exit 0)"
  unfolding isHelpFlag_def by (erule disjE) (simp_all add: parseLoop.simps(2))

lemma input_flag_only:
  "isOutputFlag a \<or> isDpiFlag a \<or> isQualityFlag a \<or> isResizeFlag a \<Longrightarrow> \<not> isInputFlag a"
  unfolding flag_defs by (elim disjE) simp_all

lemma step_plain:
  assumes "\<not> isHelpFlag a" "\<not> takesValue a"
  shows "\<exists>c'. (\<forall>rest. parseLoop wd (a # rest) c = parseLoop wd rest c') \<and>
              inputPath c' = (if startsWith ''-'' a then inputPath c else resolve wd a)"
proof (cases "isRecursiveFlag a")
  case True
  with flag_starts_with_dash[OF True] show ?thesis
    by (intro exI[of _ "c\<lparr>recursive := True\<rparr>"]) (simp add: step_recursive)
next
  case False
  show ?thesis
  proof (cases "startsWith ''-'' a")
    case True
    with False assms show ?thesis by (intro exI[of _ c]) (simp add: step_ignored)
  next
    case nd: False
    then show ?thesis
      by (intro exI[of _ "c\<lparr>inputPath := resolve wd a\<rparr>"]) (simp add: step_positional)
  qed
qed

lemma step_value:
  assumes "takesValue a" "isResizeFlag a \<longrightarrow> matchResize v \<noteq> None"
  shows "\<exists>c'. (\<forall>rest. parseLoop wd (a # v # rest) c = parseLoop wd rest c') \<and>
              inputPath c' = (if isInputFlag a then resolve wd v else inputPath c)"
proof -
  consider (i) "isInputFlag a" | (o) "isOutputFlag a" | (d) "isDpiFlag a" | (q) "isQualityFlag a"
    | (s) "isResizeFlag a"
    using assms(1) unfolding takesValue_def by blast
  then show ?thesis
  proof cases
    case i
    then show ?thesis
      by (intro exI[of _ "c\<lparr>inputPath := resolve wd v\<rparr>"]) (simp add: step_input)
  next
    case o
    with input_flag_only[of a] show ?thesis
      by (intro exI[of _ "c\<lparr>outputDir := resolve wd v\<rparr>"]) (simp add: step_output)
  next
    case d
    with input_flag_only[of a] show ?thesis
      by (intro exI[of _ "c\<lparr>dpi := parseInt v\<rparr>"]) (simp add: step_dpi)
  next
    case q
    with input_flag_only[of a] show ?thesis
      by (intro exI[of _ "c\<lparr>quality := parseInt v\<rparr>"]) (simp add: step_quality)
  next
    case s
    from s assms(2) obtain g1 g2 where m: "matchResize v = Some (g1, g2)" by auto
    from s input_flag_only[of a] show ?thesis
      by (intro exI[of _ "c\<lparr>resize := Some \<lparr>width = parseInt g1, height = parseInt g2\<rparr>\<rparr>"])
         (simp add: step_resize[OF s m])
  qed
qed

lemma scan_whole:
  "wholeOptions pre \<Longrightarrow>
   \<exists>c'. (\<forall>rest. parseLoop wd (pre @ rest) c = parseLoop wd rest c') \<and>
        inputPath c' = foldl (\<lambda>p t. resolve wd t) (inputPath c) (inputTokens pre)"
proof (induction pre arbitrary: c rule: wholeOptions.induct)
  case 1
  then show ?case by (intro exI[of _ c]) simp
next
  case (2 a)
  then have "\<not> isHelpFlag a" "\<not> takesValue a" by simp_all
  from step_plain[OF this, of wd c] show ?case by auto
next
  case (3 a v rest)
  show ?case
  proof (cases "takesValue a")
    case True
    with "3.prems" have rs: "isResizeFlag a \<longrightarrow> matchResize v \<noteq> None" and w: "wholeOptions rest"
      by simp_all
    from step_value[OF True rs, of wd c] obtain c1 where
      c1: "\<forall>r. parseLoop wd (a # v # r) c = parseLoop wd r c1"
          "inputPath c1 = (if isInputFlag a then resolve wd v else inputPath c)" by blast
    from "3.IH"(1)[OF True w, of c1] obtain c2 where
      c2: "\<forall>r. parseLoop wd (rest @ r) c1 = parseLoop wd r c2"
          "inputPath c2 = foldl (\<lambda>p t. resolve wd t) (inputPath c1) (inputTokens rest)" by blast
    show ?thesis
      using c1 c2 True by (intro exI[of _ c2]) simp
  next
    case False
    with "3.prems" have nh: "\<not> isHelpFlag a" and w: "wholeOptions (v # rest)" by simp_all
    from step_plain[OF nh False, of wd c] obtain c1 where
      c1: "\<forall>r. parseLoop wd (a # r) c = parseLoop wd r c1"
          "inputPath c1 = (if startsWith ''-'' a then inputPath c else resolve wd a)" by blast
    from "3.IH"(2)[OF False w, of c1] obtain c2 where
      c2: "\<forall>r. parseLoop wd ((v # rest) @ r) c1 = parseLoop wd r c2"
          "inputPath c2 = foldl (\<lambda>p t. resolve wd t) (inputPath c1) (inputTokens (v # rest))" by blast
    have ni: "\<not> isInputFlag a" using False by (simp add: takesValue_def)
    show ?thesis
      using c1 c2 False ni by (intro exI[of _ c2]) simp
  qed
qed


lemma parseArgs_exit_program:
  assumes "parseArgs (cwd e) args = Inl (ls, Exit n)"
  shows "program e args w = (n, w\<lparr>console := console w @ Banner # ls\<rparr>)"
  using assms by (simp add: program_def main_def)

lemmas eval_parse = parseArgs_def defaultConfig_def parseLoop.simps(2) resolve_def path_join_def
  startsWith_def matchResize_def resizeSeparator_def isDigit_def

text \<open>
  \<^bold>\<open>Claim C4\<close> (as amended). After the resize flag \<^verbatim>\<open>-s\<close> or \<^verbatim>\<open>--resize\<close>, a value that is
  a non-empty run of decimal digits, one separator (\<^verbatim>\<open>x\<close>, \<^verbatim>\<open>X\<close> or the multiplication
  sign) and a non-empty run of decimal digits sets the resize width and height to the two
  numbers the digits denote, exactly so when both are below \<open>2\<^sup>5\<^sup>3\<close>, and the
  scan continues with the next argument. Every other value prints the invalid-resize
  message and ends the process with exit code 1. The digits may denote zero.
\<close>

theorem resize_argument_parsed:
  assumes "isResizeFlag a"
  shows "(digitString g1 \<and> isResizeSeparator sep \<and> digitString g2 \<and>
            decimal g1 < 2 ^ 53 \<and> decimal g2 < 2 ^ 53 \<longrightarrow>
          parseLoop wd (a # (g1 @ sep @ g2) # rest) c =
            parseLoop wd rest
              (c\<lparr>resize := Some \<lparr>width = Num (int (decimal g1)), height = Num (int (decimal g2))\<rparr>\<rparr>)) \<and>
         ((\<nexists>h1 s h2. raw = h1 @ s @ h2 \<and> digitString h1 \<and> isResizeSeparator s \<and> digitString h2) \<longrightarrow>
          parseLoop wd (a # raw # rest) c = Inl ([InvalidResize raw], Exit 1) \<and>
          program e (a # raw # rest) w = (1, w\<lparr>console := console w @ [Banner, InvalidResize raw]\<rparr>))"
proof (intro conjI impI)
  assume h: "digitString g1 \<and> isResizeSeparator sep \<and> digitString g2 \<and>
             decimal g1 < 2 ^ 53 \<and> decimal g2 < 2 ^ 53"
  then have m: "matchResize (g1 @ sep @ g2) = Some (g1, g2)" by (simp add: matchResize_form)
  from h have "parseInt g1 = Num (int (decimal g1))" "parseInt g2 = Num (int (decimal g2))"
    by (simp_all add: parseInt_digits numberOfNat_exact)
  with step_resize[OF assms m]
  show "parseLoop wd (a # (g1 @ sep @ g2) # rest) c =
          parseLoop wd rest
            (c\<lparr>resize := Some \<lparr>width = Num (int (decimal g1)), height = Num (int (decimal g2))\<rparr>\<rparr>)"
    by simp
next
  assume n: "\<nexists>h1 s h2. raw = h1 @ s @ h2 \<and> digitString h1 \<and> isResizeSeparator s \<and> digitString h2"
  have none: "matchResize raw = None"
  proof (cases "matchResize raw")
    case (Some p)
    then obtain h1 h2 where "matchResize raw = Some (h1, h2)" by (cases p) simp
    from matchResize_Some[OF this] n show ?thesis by blast
  qed simp
  from step_resize_invalid[OF assms none]
  show "parseLoop wd (a # raw # rest) c = Inl ([InvalidResize raw], Exit 1)" .
  have "parseArgs (cwd e) (a # raw # rest) = Inl ([InvalidResize raw], Exit 1)"
    unfolding parseArgs_def by (rule step_resize_invalid[OF assms none])
  from parseArgs_exit_program[OF this]
  show "program e (a # raw # rest) w = (1, w\<lparr>console := console w @ [Banner, InvalidResize raw]\<rparr>)"
    by simp
qed

theorem resize_argument_parsed_witness:
  "parseLoop [''home''] [''-s'', ''2480x3508'', ''-r''] (defaultConfig [''home'']) =
     parseLoop [''home''] [''-r'']
       ((defaultConfig [''home''])\<lparr>resize := Some \<lparr>width = Num 2480, height = Num 3508\<rparr>\<rparr>) \<and>
   parseLoop [''home''] [''--resize'', ''A4'', ''-r''] (defaultConfig [''home'']) =
     Inl ([InvalidResize ''A4''], Exit 1) \<and>
   program (exampleEnv failingTools False) [''--resize'', ''A4'', ''-r''] exampleWorld =
     (1, exampleWorld\<lparr>console := [Banner, InvalidResize ''A4'']\<rparr>)"
proof -
  have f: "isResizeFlag ''-s''" "isResizeFlag ''--resize''" by (simp_all add: isResizeFlag_def)
  have d: "digitString ''2480''" "digitString ''3508''" by (simp_all add: digitString_def isDigit_def)
  have s: "isResizeSeparator ''x''" by (simp add: isResizeSeparator_def)
  have v: "decimal ''2480'' = 2480" "decimal ''3508'' = 3508" by (simp_all add: decimal_def)
  have n: "\<nexists>h1 s h2. ''A4'' = h1 @ s @ h2 \<and> digitString h1 \<and> isResizeSeparator s \<and> digitString h2"
  proof
    assume "\<exists>h1 s h2. ''A4'' = h1 @ s @ h2 \<and> digitString h1 \<and> isResizeSeparator s \<and> digitString h2"
    then obtain h1 s h2 where "''A4'' = h1 @ s @ h2" "digitString h1" "isResizeSeparator s"
      "digitString h2" by blast
    with matchResize_form[of h1 s h2] have "matchResize ''A4'' = Some (h1, h2)" by simp
    then show False by (simp add: matchResize_def isDigit_def)
  qed
  from resize_argument_parsed[OF f(1), of "''2480''" "''x''" "''3508''" "[''home'']" "[''-r'']"
      "defaultConfig [''home'']"] d s v
  have a: "parseLoop [''home''] [''-s'', ''2480x3508'', ''-r''] (defaultConfig [''home'']) =
     parseLoop [''home''] [''-r'']
       ((defaultConfig [''home''])\<lparr>resize := Some \<lparr>width = Num 2480, height = Num 3508\<rparr>\<rparr>)"
    by simp
  from resize_argument_parsed[OF f(2), where raw = "''A4''" and wd = "[''home'']" and rest = "[''-r'']"
      and c = "defaultConfig [''home'']" and e = "exampleEnv failingTools False" and w = exampleWorld] n
  have b: "parseLoop [''home''] [''--resize'', ''A4'', ''-r''] (defaultConfig [''home'']) =
     Inl ([InvalidResize ''A4''], Exit 1) \<and>
   program (exampleEnv failingTools False) [''--resize'', ''A4'', ''-r''] exampleWorld =
     (1, exampleWorld\<lparr>console := [Banner, InvalidResize ''A4'']\<rparr>)"
    by (simp add: exampleWorld_def)
  from a b show ?thesis by simp
qed

text \<open>The claim as stated asks for positive integers and exact values: the value \<^verbatim>\<open>0x5\<close>
  is accepted with width 0, and a width of \<open>2\<^sup>5\<^sup>3 + 1\<close> is stored as \<open>2\<^sup>5\<^sup>3\<close>.\<close>

theorem resize_zero_and_rounding_counterexample:
  "parseArgs [''home''] [''-s'', ''0x5''] =
     Inr ((defaultConfig [''home''])\<lparr>resize := Some \<lparr>width = Num 0, height = Num 5\<rparr>\<rparr>) \<and>
   parseArgs [''home''] [''-s'', ''9007199254740993x1''] =
     Inr ((defaultConfig [''home''])\<lparr>resize := Some \<lparr>width = Num 9007199254740992, height = Num 1\<rparr>\<rparr>)"
  by (simp add: eval_parse parseInt_def isWhite_def decimal_def numberOfNat_def toDouble_def Let_def)

text \<open>
  \<^bold>\<open>Claim C7\<close> (as amended). When every argument before a help flag belongs to a complete
  option (a token that stands alone, or a value-taking flag together with its value, a
  resize value being well formed), the program prints the banner and the usage text and
  exits with code 0, whatever follows the help flag.
\<close>

theorem help_flag_reached:
  assumes "wholeOptions pre" and "isHelpFlag h"
  shows "parseArgs (cwd e) (pre @ h # post) = Inl ([HelpText], Exit 0) \<and>
         program e (pre @ h # post) w = (0, w\<lparr>console := console w @ [Banner, HelpText]\<rparr>)"
proof -
  from scan_whole[OF assms(1), of "cwd e" "defaultConfig (cwd e)"] obtain c' where
    "\<forall>rest. parseLoop (cwd e) (pre @ rest) (defaultConfig (cwd e)) = parseLoop (cwd e) rest c'"
    by blast
  then have "parseArgs (cwd e) (pre @ h # post) = parseLoop (cwd e) (h # post) c'"
    by (simp add: parseArgs_def)
  then have p: "parseArgs (cwd e) (pre @ h # post) = Inl ([HelpText], Exit 0)"
    by (simp add: step_help[OF assms(2)])
  from parseArgs_exit_program[OF p] p show ?thesis by simp
qed

theorem help_flag_reached_witness:
  "parseArgs [''home''] [''-d'', ''200'', ''x.docx'', ''--help'', ''-s'', ''bad''] =
     Inl ([HelpText], Exit 0) \<and>
   program (exampleEnv failingTools False) [''-d'', ''200'', ''x.docx'', ''--help'', ''-s'', ''bad'']
     exampleWorld = (0, exampleWorld\<lparr>console := [Banner, HelpText]\<rparr>)"
proof -
  have h1: "wholeOptions [''-d'', ''200'', ''x.docx'']"
    by (simp add: takesValue_def flag_defs)
  have h2: "isHelpFlag ''--help''" by (simp add: isHelpFlag_def)
  from help_flag_reached[OF h1 h2, of "exampleEnv failingTools False" "[''-s'', ''bad'']" exampleWorld]
  show ?thesis by (simp add: exampleEnv_def exampleWorld_def)
qed

text \<open>The claim as stated ignores the arguments before the help flag: a malformed resize value
  in front of it ends the run with exit code 1, and a help flag that follows \<^verbatim>\<open>-i\<close> is
  taken as the input path.\<close>

theorem help_flag_counterexample:
  "parseArgs [''home''] [''-s'', ''bad'', ''-h''] = Inl ([InvalidResize ''bad''], Exit 1) \<and>
   program (exampleEnv failingTools False) [''-s'', ''bad'', ''-h''] exampleWorld =
     (1, exampleWorld\<lparr>console := [Banner, InvalidResize ''bad'']\<rparr>) \<and>
   parseArgs [''home''] [''-i'', ''-h''] =
     Inr ((defaultConfig [''home''])\<lparr>inputPath := [''home'', ''-h'']\<rparr>)"
  by (simp add: eval_parse program_def main_def exampleEnv_def exampleWorld_def)

text \<open>
  \<^bold>\<open>Claim C8\<close> (as amended). A token that does not start with a dash and is not the value
  of the flag before it overrides the input path with its resolution against the working
  directory; it is the final input path when no later token is assigned to the input
  path (no later stand-alone token without a dash and no later input flag). Tokens that
  start with a dash and are not flags are ignored.
\<close>

theorem positional_input_path:
  assumes "wholeOptions pre" and "\<not> startsWith ''-'' t"
    and "wholeOptions post" and "inputTokens post = []"
  shows "\<exists>c. parseArgs wd (pre @ t # post) = Inr c \<and> inputPath c = resolve wd t"
proof -
  from scan_whole[OF assms(1), of wd "defaultConfig wd"] obtain c1 where
    c1: "\<forall>rest. parseLoop wd (pre @ rest) (defaultConfig wd) = parseLoop wd rest c1"
    by blast
  from scan_whole[OF assms(3), of wd "c1\<lparr>inputPath := resolve wd t\<rparr>"] assms(4) obtain c2 where
    c2: "\<forall>rest. parseLoop wd (post @ rest) (c1\<lparr>inputPath := resolve wd t\<rparr>) = parseLoop wd rest c2"
        "inputPath c2 = resolve wd t"
    by auto
  have "parseArgs wd (pre @ t # post) = parseLoop wd (t # post) c1"
    using c1 by (simp add: parseArgs_def)
  also have "\<dots> = parseLoop wd (post @ []) (c1\<lparr>inputPath := resolve wd t\<rparr>)"
    by (simp add: step_positional[OF assms(2)])
  also have "\<dots> = Inr c2" using c2(1) by (simp del: append_Nil2)
  finally show ?thesis using c2(2) by blast
qed

theorem positional_input_path_witness:
  "\<exists>c. parseArgs [''home''] [''a.docx'', ''-i'', ''b.docx'', ''docs/c.docx'', ''--verbose'', ''-d'', ''300'']
          = Inr c \<and> inputPath c = [''home'', ''docs'', ''c.docx'']"
proof -
  have h1: "wholeOptions [''a.docx'', ''-i'', ''b.docx'']" by (simp add: takesValue_def flag_defs)
  have h2: "\<not> startsWith ''-'' ''docs/c.docx''" by (simp add: startsWith_def)
  have h3: "wholeOptions [''--verbose'', ''-d'', ''300'']" by (simp add: takesValue_def flag_defs)
  have h4: "inputTokens [''--verbose'', ''-d'', ''300''] = []"
    by (simp add: takesValue_def flag_defs startsWith_def)
  from positional_input_path[OF h1 h2 h3 h4, of "[''home'']"]
  show ?thesis by (simp add: resolve_def startsWith_def)
qed

text \<open>The claim as stated treats every unrecognised token as an input path: \<^verbatim>\<open>--verbose\<close> is
  not a flag and not a value, and the input path stays the working directory.\<close>

theorem positional_counterexample:
  "parseArgs [''home''] [''--verbose''] = Inr (defaultConfig [''home'']) \<and>
   inputPath (defaultConfig [''home'']) = [''home''] \<and>
   resolve [''home''] ''--verbose'' = [''home'', ''--verbose'']"
  by (simp add: eval_parse)

subsection \<open>The file system\<close>

lemma lookup_empty: "p \<noteq> [] \<Longrightarrow> lookup [] p = None"
  by (induction "[] :: entry list" p rule: lookup.induct) simp_all

lemma lookup_removePath: "p \<noteq> [] \<Longrightarrow> lookup (removePath es p) p = None"
  by (induction es p rule: removePath.induct) (auto simp: lookup_empty split: node.splits option.splits)

lemma lookup_prefix: "lookup es (p @ q) = Some nd \<Longrightarrow> \<exists>nd'. lookup es p = Some nd'"
proof (induction es p rule: lookup.induct)
  case (1 es)
  then show ?case by simp
next
  case (2 es n)
  then show ?case by (cases q) (auto split: option.splits node.splits)
next
  case (3 es n k p)
  then show ?case by (auto split: option.splits node.splits)
qed

lemma isDirectory_root [simp]: "isDirectory es []"
  by (simp add: isDirectory_def)

lemma isDirectory_Cons:
  "isDirectory es (n # p) = (case findEntry n es of Some (Dir sub) \<Rightarrow> isDirectory sub p | _ \<Rightarrow> False)"
  by (cases p) (auto simp: isDirectory_def split: option.splits node.splits)

lemma mkdirp_isDirectory: "mkdirp es p = Some es' \<Longrightarrow> isDirectory es' p"
  by (induction es p arbitrary: es' rule: mkdirp.induct)
     (auto simp: isDirectory_Cons split: option.splits node.splits if_splits)

lemma isDirectory_skip:
  "m \<noteq> k \<Longrightarrow> isDirectory (Entry m nd # es) (k # q) = isDirectory es (k # q)"
  by (simp add: isDirectory_Cons)

lemma isDirectory_hit:
  "isDirectory (Entry m nd # es) (m # q) = (case nd of Dir sub \<Rightarrow> isDirectory sub q | _ \<Rightarrow> False)"
  by (simp add: isDirectory_Cons split: node.splits)

lemma isDirectory_empty: "isDirectory [] q = (q = [])"
  by (cases q) (simp_all add: isDirectory_Cons)

lemma mkdirp_preserves:
  "mkdirp es p = Some es' \<Longrightarrow> isDirectory es q \<Longrightarrow> isDirectory es' q"
proof (induction es p arbitrary: es' q rule: mkdirp.induct)
  case (1 es)
  then show ?case by simp
next
  case (2 n p)
  then show ?case by (simp add: isDirectory_empty)
next
  case (3 m nd es n p)
  show ?case
  proof (cases q)
    case Nil
    then show ?thesis by simp
  next
    case (Cons k q')
    show ?thesis
    proof (cases "m = n")
      case mn: True
      with "3.prems"(1) obtain sub sub' where nd: "nd = Dir sub" and mk: "mkdirp sub p = Some sub'"
        and es': "es' = Entry m (Dir sub') # es"
        by (auto split: node.splits option.splits)
      show ?thesis
      proof (cases "k = m")
        case True
        with "3.prems"(2) Cons nd have "isDirectory sub q'" by (simp add: isDirectory_hit)
        from "3.IH"(1)[OF mn nd mk this] True Cons es' show ?thesis by (simp add: isDirectory_hit)
      next
        case False
        with "3.prems"(2) Cons es' show ?thesis by (simp add: isDirectory_skip)
      qed
    next
      case mn: False
      with "3.prems"(1) obtain es'' where mk: "mkdirp es (n # p) = Some es''"
        and es': "es' = Entry m nd # es''"
        by (auto split: option.splits)
      show ?thesis
      proof (cases "k = m")
        case True
        with "3.prems"(2) Cons es' show ?thesis by (simp add: isDirectory_hit)
      next
        case False
        with "3.prems"(2) Cons have "isDirectory es q" by (simp add: isDirectory_skip)
        from "3.IH"(2)[OF mn mk this] False Cons es' show ?thesis by (simp add: isDirectory_skip)
      qed
    qed
  qed
qed

lemma removePath_preserves:
  "\<forall>r. q \<noteq> p @ r \<Longrightarrow> isDirectory es q \<Longrightarrow> isDirectory (removePath es p) q"
proof (induction es p arbitrary: q rule: removePath.induct)
  case (1 es)
  then show ?case by simp
next
  case (2 n p)
  then show ?case by (simp add: isDirectory_empty)
next
  case (3 m nd es n)
  show ?case
  proof (cases q)
    case Nil
    then show ?thesis by simp
  next
    case (Cons k q')
    with "3.prems" have kn: "k \<noteq> n" by auto
    show ?thesis
    proof (cases "k = m")
      case True
      with kn "3.prems" Cons show ?thesis by (simp add: isDirectory_hit)
    next
      case False
      with "3.prems" Cons have d: "isDirectory es q" by (simp add: isDirectory_skip)
      have "isDirectory (removePath es [n]) q"
        using "3.IH"(1)[OF _ "3.prems"(1) d] "3.IH"(2)[OF _ "3.prems"(1) d] by blast
      with False Cons show ?thesis by (simp add: isDirectory_skip)
    qed
  qed
next
  case (4 m nd es n k p)
  show ?case
  proof (cases q)
    case Nil
    then show ?thesis by simp
  next
    case (Cons k' q')
    show ?thesis
    proof (cases "k' = m")
      case True
      show ?thesis
      proof (cases "m = n")
        case mn: True
        with True Cons "4.prems"(1) have np: "\<forall>r. q' \<noteq> (k # p) @ r" by auto
        from "4.prems"(2) True Cons obtain sub where nd: "nd = Dir sub" and ds: "isDirectory sub q'"
          by (auto simp: isDirectory_hit split: node.splits)
        from "4.IH"(3)[OF mn nd np ds] mn nd True Cons show ?thesis
          by (simp add: isDirectory_hit)
      next
        case False
        with True Cons "4.prems"(2) show ?thesis by (simp add: isDirectory_hit)
      qed
    next
      case False
      with "4.prems" Cons have d: "isDirectory es q" by (simp add: isDirectory_skip)
      have "isDirectory (removePath es (n # k # p)) q"
      proof (cases "m = n")
        case mn: True
        show ?thesis
        proof (cases nd)
          case (Dir sub)
          from "4.IH"(4)[OF mn Dir "4.prems"(1) d] show ?thesis .
        next
          case File
          from "4.IH"(1)[OF mn File "4.prems"(1) d] show ?thesis .
        next
          case Other
          from "4.IH"(2)[OF mn Other "4.prems"(1) d] show ?thesis .
        qed
      next
        case mn: False
        from "4.IH"(5)[OF mn "4.prems"(1) d] show ?thesis .
      qed
      with False Cons show ?thesis by (auto simp: isDirectory_skip split: node.splits)
    qed
  qed
qed

subsection \<open>convertFile: what every step preserves\<close>

lemma files_print [simp]: "files (print l w) = files w"
  by (simp add: print_def)

lemma console_print [simp]: "console (print l w) = console w @ [l]"
  by (simp add: print_def)

lemma spawnSync_alt:
  "spawnSync e cmd w = (fst (run e cmd (files w)), w\<lparr>files := snd (run e cmd (files w))\<rparr>)"
  by (simp add: spawnSync_def split: prod.splits)

lemma resolveLibreOffice_invariant:
  assumes "\<And>cmd fs. Q fs \<Longrightarrow> Q (snd (run e cmd fs))" and "Q (files w)"
  shows "Q (files (snd (resolveLibreOffice e w)))"
  using assms by (simp add: resolveLibreOffice_def spawnSync_alt Let_def)

lemma stepPdf_invariant:
  assumes "\<And>cmd fs. Q fs \<Longrightarrow> Q (snd (run e cmd fs))" and "Q (files w)"
  shows "Q (files (snd (stepPdf e filePath base tmpDir w)))"
proof -
  have "Q (files (snd (resolveLibreOffice e (print ConvertingToPdf w))))"
    by (rule resolveLibreOffice_invariant[of Q e, OF assms(1)]) (simp_all add: assms(2))
  then show ?thesis
    by (cases "resolveLibreOffice e (print ConvertingToPdf w)")
       (simp add: stepPdf_def spawnSync_alt assms(1))
qed

lemma queryPageCount_invariant:
  assumes "\<And>cmd fs. Q fs \<Longrightarrow> Q (snd (run e cmd fs))" and "Q (files w)"
  shows "Q (files (snd (queryPageCount e actualPdf w)))"
  using assms by (simp add: queryPageCount_def spawnSync_alt)

lemma stepJpg_invariant:
  assumes "\<And>cmd fs. Q fs \<Longrightarrow> Q (snd (run e cmd fs))" and "Q (files w)"
  shows "Q (files (snd (stepJpg e base dir d q actualPdf pageCount w)))"
  using assms by (simp add: stepJpg_def spawnSync_alt split: option.splits)

lemma resizeAll_invariant:
  assumes "\<And>cmd fs. Q fs \<Longrightarrow> Q (snd (run e cmd fs))"
  shows "Q (files w) \<Longrightarrow> Q (files (snd (resizeAll e d q outs w)))"
  by (induction outs arbitrary: w) (simp_all add: spawnSync_alt assms)

lemma stepResize_invariant:
  assumes "\<And>cmd fs. Q fs \<Longrightarrow> Q (snd (run e cmd fs))" and "Q (files w)"
  shows "Q (files (snd (stepResize e rs q outs w)))"
proof (cases rs)
  case None
  with assms(2) show ?thesis by (simp add: stepResize_def)
next
  case (Some d)
  have "Q (files (snd (resizeAll e d q outs (print (Resizing (width d) (height d)) w))))"
    by (rule resizeAll_invariant[of Q e, OF assms(1)]) (simp_all add: assms(2))
  with Some show ?thesis
    by (auto simp: stepResize_def split: prod.splits sum.splits)
qed

lemma tryBlock_invariant:
  assumes inv: "\<And>cmd fs. Q fs \<Longrightarrow> Q (snd (run e cmd fs))" and "Q (files w)"
  shows "Q (files (snd (tryBlock e filePath base dir tmpDir d q rs w)))"
proof -
  obtain r1 w1 where s1: "stepPdf e filePath base tmpDir w = (r1, w1)" by fastforce
  have q1: "Q (files w1)"
    using stepPdf_invariant[of Q e w filePath base tmpDir, OF inv assms(2)] s1 by simp
  show ?thesis
  proof (cases r1)
    case (Inl ex)
    with s1 q1 show ?thesis by (simp add: tryBlock_def)
  next
    case (Inr actualPdf)
    obtain pc w2 where s2: "queryPageCount e actualPdf w1 = (pc, w2)" by fastforce
    have q2: "Q (files w2)"
      using queryPageCount_invariant[of Q e w1 actualPdf, OF inv q1] s2 by simp
    obtain r3 w3 where s3: "stepJpg e base dir d q actualPdf pc w2 = (r3, w3)" by fastforce
    have q3: "Q (files w3)"
      using stepJpg_invariant[of Q e w2 base dir d q actualPdf pc, OF inv q2] s3 by simp
    show ?thesis
    proof (cases r3)
      case (Inl ex)
      with s1 Inr s2 s3 q3 show ?thesis by (simp add: tryBlock_def)
    next
      case outs: (Inr outs)
      with s1 Inr s2 s3 stepResize_invariant[of Q e w3 rs q outs, OF inv q3]
      show ?thesis by (simp add: tryBlock_def)
    qed
  qed
qed


lemma mkdtempSync_facts:
  assumes "mkdtempSync e fs = Some (tmp, fs')"
  shows "tmp \<noteq> []" and "lookup fs tmp = None" and "mkdirp fs tmp = Some fs'"
  using assms
  by (auto simp: mkdtempSync_def Let_def split: option.splits node.splits if_splits)

lemma isDirectory_exists: "isDirectory fs p \<Longrightarrow> existsSync fs p"
  by (auto simp: isDirectory_def existsSync_def split: option.splits)

lemma not_below_missing:
  assumes "lookup fs tmp = None" and "isDirectory fs F"
  shows "\<forall>r. F \<noteq> tmp @ r"
proof (intro allI notI)
  fix r assume "F = tmp @ r"
  with assms(2) obtain nd where "lookup fs (tmp @ r) = Some nd"
    by (auto simp: isDirectory_def split: option.splits)
  from lookup_prefix[OF this] assms(1) show False by simp
qed

lemma convertFile_returns:
  assumes "mkdirp (files w) (fileOutputDirOf fp out) = Some fs1"
    and "mkdtempSync e fs1 = Some (tmp, fs2)"
  shows "convertFile e fp out d q rs w =
           (case tryBlock e fp (basename fp (path_extname fp)) (fileOutputDirOf fp out) tmp d q rs
                   (w\<lparr>files := fs2\<rparr>) of
              (Inr outs, w3) \<Rightarrow>
                (Inr \<lparr>source = fp, pages = length outs, outputFiles = outs, error = None\<rparr>,
                 finallyBlock e tmp w3)
            | (Inl ex, w3) \<Rightarrow>
                (Inr \<lparr>source = fp, pages = 0, outputFiles = [], error = Some (message ex)\<rparr>,
                 finallyBlock e tmp w3))"
  using assms by (simp add: convertFile_def fileOutputDirOf_def Let_def)

lemma convertFile_Inr:
  assumes "convertFile e fp out d q rs w = (Inr r, w')"
  shows "\<exists>fs1 tmp fs2. mkdirp (files w) (fileOutputDirOf fp out) = Some fs1 \<and>
                       mkdtempSync e fs1 = Some (tmp, fs2)"
  using assms
  by (auto simp: convertFile_def fileOutputDirOf_def Let_def split: option.splits prod.splits)

subsection \<open>convertFile: results, scratch directory and output directory\<close>

lemma message_nonempty: "\<forall>m. ex \<noteq> JsError m \<Longrightarrow> message ex \<noteq> []"
  by (cases ex) simp_all

lemmas eval_paths = fileOutputDirOf_def basename_def path_extname_def extname_def endsWith_def
  path_join_def resolve_def startsWith_def

lemmas eval_env = exampleEnv_def exampleWorld_def exampleFiles_def exampleConfig_def

lemmas eval_convert = convertFile_def mkdtempSync_def tryBlock_def stepPdf_def stepJpg_def
  stepResize_def queryPageCount_def locatePdf_def pdfsIn_def readdirSync_def
  resolveLibreOffice_def existsSync_def spawnSync_def whichFound_def whichPath_def trim_def
  isWhite_def print_def finallyBlock_def Let_def

lemmas eval_pages = pagesAt_def parseInt_def decimal_def isDigit_def numberOfNat_exact

lemma failingTools_files: "snd (failingTools cmd fs) = fs"
  by (cases cmd) simp_all

text \<open>Each of the four failures makes the \<^verbatim>\<open>try\<close> block throw the error of its step.\<close>

lemma converter_failure_thrown:
  assumes "converterFails e fp tmp w"
  shows "\<exists>d w'. tryBlock e fp base dir tmp dp q rs w = (Inl (LibreOfficeError d), w')"
  using assms
  by (auto simp: converterFails_def tryBlock_def stepPdf_def split: prod.splits)

lemma pdf_missing_thrown:
  assumes "pdfMissing e fp base tmp w"
  shows "\<exists>w'. tryBlock e fp base dir tmp dp q rs w = (Inl NoPdfFound, w')"
  using assms
  by (auto simp: pdfMissing_def tryBlock_def stepPdf_def locatePdf_def pdfsIn_def
      split: prod.splits option.splits)

lemma rasteriser_failure_thrown:
  assumes "rasteriserFails e fp base dir tmp dp q w"
  shows "\<exists>d w'. tryBlock e fp base dir tmp dp q rs w = (Inl (PdftoppmError d), w')"
  using assms
  by (auto simp: rasteriserFails_def tryBlock_def stepJpg_def split: prod.splits sum.splits)

lemma resize_call_failure_thrown:
  "resizeCallFails e dm q outs w \<Longrightarrow> \<exists>d w'. resizeAll e dm q outs w = (Inl (ResizeError d), w')"
proof (induction outs arbitrary: w)
  case Nil
  then show ?case by simp
next
  case (Cons f fs)
  obtain r w1 where s: "spawnSync e (Convert f dm q) w = (r, w1)" by fastforce
  show ?case
  proof (cases "status r = Some 0")
    case True
    with Cons.prems s have "resizeCallFails e dm q fs w1" by simp
    from Cons.IH[OF this] s True show ?thesis by simp
  next
    case False
    with s show ?thesis by simp
  qed
qed

lemma resize_step_failure_thrown:
  assumes "resizeFails e fp base dir tmp dp q rs w"
  shows "\<exists>d w'. tryBlock e fp base dir tmp dp q rs w = (Inl (ResizeError d), w')"
proof -
  from assms obtain dm where rs: "rs = Some dm"
    by (cases rs) (simp_all add: resizeFails_def)
  obtain r1 w1 where s1: "stepPdf e fp base tmp w = (r1, w1)" by fastforce
  from assms rs s1 obtain pdf where r1: "r1 = Inr pdf"
    by (cases r1) (simp_all add: resizeFails_def)
  obtain pc w2 where s2: "queryPageCount e pdf w1 = (pc, w2)" by fastforce
  obtain r3 w3 where s3: "stepJpg e base dir dp q pdf pc w2 = (r3, w3)" by fastforce
  from assms rs s1 r1 s2 s3 obtain outs where r3: "r3 = Inr outs"
    by (cases r3) (simp_all add: resizeFails_def)
  from assms rs s1 r1 s2 s3 r3
  have "resizeCallFails e dm q outs (print (Resizing (width dm) (height dm)) w3)"
    by (simp add: resizeFails_def)
  from resize_call_failure_thrown[OF this] obtain d w' where
    "resizeAll e dm q outs (print (Resizing (width dm) (height dm)) w3) = (Inl (ResizeError d), w')"
    by blast
  with rs s1 r1 s2 s3 r3 show ?thesis by (simp add: tryBlock_def stepResize_def)
qed

lemma caught_error_result:
  assumes "w0 = print (Progress (i + 1) n (basename fp [])) w"
    and "mkdirp (files w0) (fileOutputDirOf fp (outputDir c)) = Some fs1"
    and "mkdtempSync e fs1 = Some (tmp, fs2)"
    and "tryBlock e fp (basename fp (path_extname fp)) (fileOutputDirOf fp (outputDir c)) tmp
           (dpi c) (quality c) (resize c) (w0\<lparr>files := fs2\<rparr>) = (Inl ex, w3)"
    and "\<forall>m. ex \<noteq> JsError m"
  shows "\<exists>r w1 m.
           convertFile e fp (outputDir c) (dpi c) (quality c) (resize c) w0 = (Inr r, w1) \<and>
           pages r = 0 \<and> outputFiles r = [] \<and> error r = Some m \<and> m \<noteq> [] \<and>
           convertLoop e c n i (fp # rest) t w =
             convertLoop e c n (i + 1) rest
               (t\<lparr>results := results t @ [r], errorCount := errorCount t + 1\<rparr>)
               (print (ErrorLine m) w1)"
proof -
  let ?r = "\<lparr>source = fp, pages = 0, outputFiles = [], error = Some (message ex)\<rparr>"
  have cf: "convertFile e fp (outputDir c) (dpi c) (quality c) (resize c) w0 =
              (Inr ?r, finallyBlock e tmp w3)"
    using convertFile_returns[OF assms(2,3)] assms(4) by simp
  have ne: "message ex \<noteq> []" by (rule message_nonempty[OF assms(5)])
  have "convertLoop e c n i (fp # rest) t w =
          convertLoop e c n (i + 1) rest
            (t\<lparr>results := results t @ [?r], errorCount := errorCount t + 1\<rparr>)
            (print (ErrorLine (message ex)) (finallyBlock e tmp w3))"
    by (subst convertLoop.simps(2), simp only: cf[unfolded assms(1)] prod.case sum.case)
       (simp add: ne truthy_def)
  with cf ne show ?thesis by auto
qed

text \<open>
  \<^bold>\<open>Claim C1.\<close> Take an iteration of the conversion loop in which \<^verbatim>\<open>convertFile\<close> has
  created the document's output directory and the scratch directory, and in which one of
  the steps of the pipeline fails: the converter ends with a status other than 0, or no
  PDF is found in the scratch directory, or the rasteriser ends with a status other than
  0, or one of the resize calls ends with a status other than 0. Then \<^verbatim>\<open>convertFile\<close>
  returns a result with zero pages, no output files and a non-empty error text, and the
  loop goes on with the remaining documents, counting one more error.
\<close>

theorem failed_step_gives_error_result:
  assumes "w0 = print (Progress (i + 1) n (basename fp [])) w"
    and "mkdirp (files w0) (fileOutputDirOf fp (outputDir c)) = Some fs1"
    and "mkdtempSync e fs1 = Some (tmp, fs2)"
    and "converterFails e fp tmp (w0\<lparr>files := fs2\<rparr>) \<or>
         pdfMissing e fp (basename fp (path_extname fp)) tmp (w0\<lparr>files := fs2\<rparr>) \<or>
         rasteriserFails e fp (basename fp (path_extname fp)) (fileOutputDirOf fp (outputDir c))
           tmp (dpi c) (quality c) (w0\<lparr>files := fs2\<rparr>) \<or>
         resizeFails e fp (basename fp (path_extname fp)) (fileOutputDirOf fp (outputDir c))
           tmp (dpi c) (quality c) (resize c) (w0\<lparr>files := fs2\<rparr>)"
  shows "\<exists>r w1 m.
           convertFile e fp (outputDir c) (dpi c) (quality c) (resize c) w0 = (Inr r, w1) \<and>
           pages r = 0 \<and> outputFiles r = [] \<and> error r = Some m \<and> m \<noteq> [] \<and>
           convertLoop e c n i (fp # rest) t w =
             convertLoop e c n (i + 1) rest
               (t\<lparr>results := results t @ [r], errorCount := errorCount t + 1\<rparr>)
               (print (ErrorLine m) w1)"
proof -
  let ?w = "w0\<lparr>files := fs2\<rparr>"
  let ?base = "basename fp (path_extname fp)"
  let ?dir = "fileOutputDirOf fp (outputDir c)"
  from assms(4) converter_failure_thrown[of e fp tmp ?w ?base ?dir "dpi c" "quality c" "resize c"]
    pdf_missing_thrown[of e fp ?base tmp ?w ?dir "dpi c" "quality c" "resize c"]
    rasteriser_failure_thrown[of e fp ?base ?dir tmp "dpi c" "quality c" ?w "resize c"]
    resize_step_failure_thrown[of e fp ?base ?dir tmp "dpi c" "quality c" "resize c" ?w]
  obtain ex w3 where
    tb: "tryBlock e fp ?base ?dir tmp (dpi c) (quality c) (resize c) ?w = (Inl ex, w3)"
    and ex: "\<forall>m. ex \<noteq> JsError m"
    by (elim disjE) fastforce+
  from caught_error_result[OF assms(1,2,3) tb ex] show ?thesis .
qed

theorem failed_step_gives_error_result_witness:
  "\<exists>r w1. convertFile (exampleEnv resizeFailingTools False) [''in'', ''Report.docx''] [''out'']
             (Num 150) (Num 90) (Some \<lparr>width = Num 800, height = Num 600\<rparr>)
             (print (Progress 1 1 ''Report.docx'') exampleWorld) = (Inr r, w1) \<and>
          pages r = 0 \<and> outputFiles r = [] \<and> error r \<noteq> None \<and> error r \<noteq> Some [] \<and>
          convertLoop (exampleEnv resizeFailingTools False) resizeConfig 1 0
            [[''in'', ''Report.docx'']]
            \<lparr>results = [], successCount = 0, errorCount = 0\<rparr> exampleWorld =
          (Inr \<lparr>results = [r], successCount = 0, errorCount = 1\<rparr>,
           print (ErrorLine (the (error r))) w1)"
proof -
  let ?e = "exampleEnv resizeFailingTools False"
  let ?fp = "[''in'', ''Report.docx'']"
  let ?w0 = "print (Progress (0 + 1) 1 (basename ?fp [])) exampleWorld"
  let ?F = "fileOutputDirOf ?fp (outputDir resizeConfig)"
  define fs1 where "fs1 = the (mkdirp (files ?w0) ?F)"
  define tmp where "tmp = fst (the (mkdtempSync ?e fs1))"
  define fs2 where "fs2 = snd (the (mkdtempSync ?e fs1))"
  have h2: "mkdirp (files ?w0) ?F = Some fs1"
    unfolding fs1_def by (simp add: eval_paths eval_env eval_convert resizeConfig_def)
  have h3: "mkdtempSync ?e fs1 = Some (tmp, fs2)"
    unfolding tmp_def fs2_def fs1_def
    by (simp add: eval_paths eval_env eval_convert resizeConfig_def)
  have h4: "resizeFails ?e ?fp (basename ?fp (path_extname ?fp)) ?F tmp (dpi resizeConfig)
              (quality resizeConfig) (resize resizeConfig) (?w0\<lparr>files := fs2\<rparr>)"
    unfolding tmp_def fs2_def fs1_def
    by (simp add: resizeFails_def eval_paths eval_env eval_convert eval_pages resizeConfig_def)
  from failed_step_gives_error_result[OF refl h2 h3 disjI2[OF disjI2[OF disjI2[OF h4]]],
      where rest = "[]" and t = "\<lparr>results = [], successCount = 0, errorCount = 0\<rparr>"]
  show ?thesis
    by (auto simp: resizeConfig_def exampleConfig_def basename_def)
qed

text \<open>
  \<^bold>\<open>Claim C2\<close> (as amended). The scratch directory that \<^verbatim>\<open>convertFile\<close> creates exists
  when the \<^verbatim>\<open>try\<close> block starts, and it no longer exists when \<^verbatim>\<open>convertFile\<close> returns,
  whether the \<^verbatim>\<open>try\<close> block returned or threw, provided the removal itself does not
  fail. (A failing removal is caught and ignored by the \<^verbatim>\<open>finally\<close> block.)
\<close>

theorem scratch_directory_removed:
  assumes "mkdirp (files w) (fileOutputDirOf fp out) = Some fs1"
    and "mkdtempSync e fs1 = Some (tmp, fs2)"
    and "\<forall>fs. \<not> rmSyncFails e tmp fs"
  shows "existsSync fs2 tmp \<and>
         (\<exists>r w'. convertFile e fp out d q rs w = (Inr r, w') \<and> \<not> existsSync (files w') tmp)"
proof -
  from mkdtempSync_facts[OF assms(2)] have ne: "tmp \<noteq> []" and mk: "mkdirp fs1 tmp = Some fs2"
    by simp_all
  have ex: "existsSync fs2 tmp" by (rule isDirectory_exists[OF mkdirp_isDirectory[OF mk]])
  obtain res w3 where tb: "tryBlock e fp (basename fp (path_extname fp)) (fileOutputDirOf fp out)
      tmp d q rs (w\<lparr>files := fs2\<rparr>) = (res, w3)" by fastforce
  have gone: "\<not> existsSync (files (finallyBlock e tmp w3)) tmp"
    using assms(3) ne by (simp add: finallyBlock_def existsSync_def lookup_removePath)
  from convertFile_returns[OF assms(1,2), of d q rs] tb gone
  have "\<exists>r w'. convertFile e fp out d q rs w = (Inr r, w') \<and> \<not> existsSync (files w') tmp"
    by (cases res) auto
  with ex show ?thesis by blast
qed

theorem scratch_directory_removed_witness:
  "\<not> existsSync exampleFiles [''tmp'', ''word2jpg-Ab3dE9''] \<and>
   (\<exists>r w'. convertFile (exampleEnv failingTools False) [''in'', ''Report.docx''] [''out'']
              (Num 150) (Num 90) None exampleWorld = (Inr r, w') \<and>
            \<not> existsSync (files w') [''tmp'', ''word2jpg-Ab3dE9''])"
proof -
  let ?e = "exampleEnv failingTools False"
  let ?fp = "[''in'', ''Report.docx'']"
  let ?tmp = "[''tmp'', ''word2jpg-Ab3dE9'']"
  define fs1 where "fs1 = the (mkdirp (files exampleWorld) (fileOutputDirOf ?fp [''out'']))"
  define fs2 where "fs2 = snd (the (mkdtempSync ?e fs1))"
  have h1: "mkdirp (files exampleWorld) (fileOutputDirOf ?fp [''out'']) = Some fs1"
    unfolding fs1_def by (simp add: eval_paths eval_env eval_convert)
  have h2: "mkdtempSync ?e fs1 = Some (?tmp, fs2)"
    unfolding fs2_def fs1_def by (simp add: eval_paths eval_env eval_convert)
  have h3: "\<forall>fs. \<not> rmSyncFails ?e ?tmp fs" by (simp add: exampleEnv_def)
  have "\<not> existsSync exampleFiles ?tmp" by (simp add: existsSync_def exampleFiles_def)
  with scratch_directory_removed[OF h1 h2 h3, where d = "Num 150" and q = "Num 90" and rs = None]
  show ?thesis by simp
qed

text \<open>The claim as stated holds on every exit path: when \<^verbatim>\<open>rmSync\<close> throws, the error is
  swallowed and the directory that this call created is still there after the return.\<close>

theorem scratch_directory_left_counterexample:
  "\<not> existsSync exampleFiles [''tmp'', ''word2jpg-Ab3dE9''] \<and>
   fst (convertFile (exampleEnv failingTools True) [''in'', ''Report.docx''] [''out'']
          (Num 150) (Num 90) None exampleWorld) =
     Inr \<lparr>source = [''in'', ''Report.docx''], pages = 0, outputFiles = [],
           error = Some ''LibreOffice error: Error: source file could not be loaded''\<rparr> \<and>
   existsSync
     (files (snd (convertFile (exampleEnv failingTools True) [''in'', ''Report.docx''] [''out'']
                    (Num 150) (Num 90) None exampleWorld)))
     [''tmp'', ''word2jpg-Ab3dE9'']"
  by (simp add: eval_paths eval_env eval_convert)

text \<open>
  \<^bold>\<open>Claim C10.\<close> When \<^verbatim>\<open>convertFile\<close> returns, the output directory joined with the
  document's base name was created before the \<^verbatim>\<open>try\<close> block ran, and it is a directory
  when \<^verbatim>\<open>convertFile\<close> returns, whether the conversion succeeded or failed, as long as no
  external program removes it.
\<close>

theorem output_directory_persists:
  assumes "convertFile e fp out d q rs w = (Inr r, w')"
    and "\<forall>cmd fs. isDirectory fs (fileOutputDirOf fp out)
           \<longrightarrow> isDirectory (snd (run e cmd fs)) (fileOutputDirOf fp out)"
  shows "(\<exists>fs1 tmp fs2. mkdirp (files w) (fileOutputDirOf fp out) = Some fs1 \<and>
            mkdtempSync e fs1 = Some (tmp, fs2) \<and> isDirectory fs2 (fileOutputDirOf fp out)) \<and>
         isDirectory (files w') (fileOutputDirOf fp out)"
proof -
  let ?F = "fileOutputDirOf fp out"
  from convertFile_Inr[OF assms(1)] obtain fs1 tmp fs2 where
    mk: "mkdirp (files w) ?F = Some fs1" and mt: "mkdtempSync e fs1 = Some (tmp, fs2)" by blast
  from mkdtempSync_facts[OF mt] have ne: "tmp \<noteq> []" and miss: "lookup fs1 tmp = None"
    and mk2: "mkdirp fs1 tmp = Some fs2" by simp_all
  have d1: "isDirectory fs1 ?F" by (rule mkdirp_isDirectory[OF mk])
  have d2: "isDirectory fs2 ?F" by (rule mkdirp_preserves[OF mk2 d1])
  obtain res w3 where tb: "tryBlock e fp (basename fp (path_extname fp)) ?F
      tmp d q rs (w\<lparr>files := fs2\<rparr>) = (res, w3)" by fastforce
  have inv: "\<And>cmd fs. isDirectory fs ?F \<Longrightarrow> isDirectory (snd (run e cmd fs)) ?F"
    using assms(2) by blast
  have "isDirectory (files (snd (tryBlock e fp (basename fp (path_extname fp)) ?F
      tmp d q rs (w\<lparr>files := fs2\<rparr>)))) ?F"
    by (rule tryBlock_invariant[of "\<lambda>fs. isDirectory fs ?F" e, OF inv]) (simp_all add: d2)
  with tb have d3: "isDirectory (files w3) ?F" by simp
  have d4: "isDirectory (files (finallyBlock e tmp w3)) ?F"
    using removePath_preserves[OF not_below_missing[OF miss d1] d3] d3
    by (simp add: finallyBlock_def)
  from convertFile_returns[OF mk mt, of d q rs] tb assms(1) have "w' = finallyBlock e tmp w3"
    by (cases res) auto
  with d4 d2 mk mt show ?thesis by blast
qed

theorem output_directory_persists_witness:
  "\<not> isDirectory exampleFiles [''out'', ''Report''] \<and>
   isDirectory
     (files (snd (convertFile (exampleEnv failingTools False) [''in'', ''Report.docx''] [''out'']
                    (Num 150) (Num 90) None exampleWorld)))
     [''out'', ''Report'']"
proof -
  let ?e = "exampleEnv failingTools False"
  let ?fp = "[''in'', ''Report.docx'']"
  let ?cf = "convertFile ?e ?fp [''out''] (Num 150) (Num 90) None exampleWorld"
  define r where "r = (case fst ?cf of Inr x \<Rightarrow> x)"
  have F: "fileOutputDirOf ?fp [''out''] = [''out'', ''Report'']" by (simp add: eval_paths)
  have h1: "?cf = (Inr r, snd ?cf)"
    unfolding r_def by (simp add: eval_paths eval_env eval_convert)
  have h2: "\<forall>cmd fs. isDirectory fs (fileOutputDirOf ?fp [''out''])
              \<longrightarrow> isDirectory (snd (run ?e cmd fs)) (fileOutputDirOf ?fp [''out''])"
    by (simp add: exampleEnv_def failingTools_files)
  have "\<not> isDirectory exampleFiles [''out'', ''Report'']"
    by (simp add: isDirectory_def exampleFiles_def)
  with output_directory_persists[OF h1 h2] F show ?thesis by simp
qed

subsection \<open>collectWordFiles\<close>

lemma scanDir_top_level: "scanDir False p es = map (path_join p) (topLevelDocuments es)"
  by (induction es rule: topLevelDocuments.induct) simp_all

lemma fileBelow_nonempty: "fileBelow es rel \<Longrightarrow> rel \<noteq> []"
  by (induction rule: fileBelow.induct) simp_all

lemma fileBelow_Cons: "fileBelow es rel \<Longrightarrow> fileBelow (x # es) rel"
  by (induction rule: fileBelow.induct) (auto intro: fileBelow.intros)

lemma scanDir_sound:
  "q \<in> set (scanDir True p es) \<Longrightarrow>
   \<exists>rel. fileBelow es rel \<and> isWordExtension (extname (last rel)) \<and> q = foldl path_join p rel"
proof (induction True p es arbitrary: q rule: scanDir.induct)
  case (1 dir)
  then show ?case by simp
next
  case (2 dir n sub es)
  from "2.prems" consider (a) "q \<in> set (scanDir True (path_join dir n) sub)"
    | (b) "q \<in> set (scanDir True dir es)" by auto
  then show ?case
  proof cases
    case a
    from "2.hyps"(1)[OF _ a] obtain rel where r: "fileBelow sub rel"
      "isWordExtension (extname (last rel))" "q = foldl path_join (path_join dir n) rel" by auto
    from r(1) have "fileBelow (Entry n (Dir sub) # es) (n # rel)"
      by (intro fileBelow.deeper[of n sub]) simp_all
    with r fileBelow_nonempty[OF r(1)] show ?thesis
      by (intro exI[of _ "n # rel"]) simp
  next
    case b
    from "2.hyps"(2)[OF b] show ?thesis by (auto intro: fileBelow_Cons)
  qed
next
  case (3 dir n es)
  from "3.prems" consider (a) "isWordExtension (extname n)" "q = path_join dir n"
    | (b) "q \<in> set (scanDir True dir es)" by (auto split: if_splits)
  then show ?case
  proof cases
    case a
    have "fileBelow (Entry n File # es) [n]" by (intro fileBelow.here) simp
    with a show ?thesis by (intro exI[of _ "[n]"]) simp
  next
    case b
    from "3.hyps"[OF b] show ?thesis by (auto intro: fileBelow_Cons)
  qed
next
  case (4 dir n es)
  then show ?case by (auto intro: fileBelow_Cons)
qed

lemma scanDir_file:
  "Entry n File \<in> set es \<Longrightarrow> isWordExtension (extname n) \<Longrightarrow> path_join p n \<in> set (scanDir r p es)"
  by (induction r p es rule: scanDir.induct) auto

lemma scanDir_subdirectory:
  "Entry d (Dir sub) \<in> set es \<Longrightarrow> set (scanDir True (path_join p d) sub) \<subseteq> set (scanDir True p es)"
  by (induction True p es rule: scanDir.induct) auto

lemma scanDir_complete:
  "fileBelow es rel \<Longrightarrow> isWordExtension (extname (last rel)) \<Longrightarrow>
   foldl path_join p rel \<in> set (scanDir True p es)"
proof (induction arbitrary: p rule: fileBelow.induct)
  case (here n es)
  then show ?case by (simp add: scanDir_file)
next
  case (deeper d sub es rel)
  from deeper.prems fileBelow_nonempty[OF deeper.hyps(2)]
  have "isWordExtension (extname (last rel))" by simp
  from deeper.IH[OF this, of "path_join p d"] scanDir_subdirectory[OF deeper.hyps(1), of p]
  show ?case by auto
qed

lemmas eval_names = isWordExtension_def extname_def toLowerCase_def toLowerChar_def path_join_def

text \<open>
  \<^bold>\<open>Claim C5.\<close> For an input path that is a directory, collection without the recursive
  flag returns exactly the eligible regular files among the directory's own entries, in
  directory order (as many paths as there are such entries, and nothing from nested
  directories); collection with the recursive flag returns exactly the eligible regular
  files found at any depth below the directory, the top-level ones among them. A file is
  eligible when the lower-cased extension of its name is \<^verbatim>\<open>.docx\<close> or \<^verbatim>\<open>.dotm\<close>.
\<close>

theorem collect_documents:
  assumes "lookup (files w) p = Some (Dir es)"
  shows "collectWordFiles w p False = (Inr (map (path_join p) (topLevelDocuments es)), w) \<and>
         (\<exists>fls. collectWordFiles w p True = (Inr fls, w) \<and>
            set fls = {q. \<exists>rel. fileBelow es rel \<and> isWordExtension (extname (last rel)) \<and>
                               q = foldl path_join p rel} \<and>
            set (map (path_join p) (topLevelDocuments es)) \<subseteq> set fls)"
proof -
  have a: "collectWordFiles w p False = (Inr (map (path_join p) (topLevelDocuments es)), w)"
    using assms by (simp add: collectWordFiles_def scanDir_top_level)
  have b: "collectWordFiles w p True = (Inr (scanDir True p es), w)"
    using assms by (simp add: collectWordFiles_def)
  have c: "set (scanDir True p es) =
             {q. \<exists>rel. fileBelow es rel \<and> isWordExtension (extname (last rel)) \<and>
                       q = foldl path_join p rel}"
    using scanDir_sound[of _ p es] scanDir_complete[of es _ p] by blast
  have d: "set (map (path_join p) (topLevelDocuments es)) \<subseteq> set (scanDir True p es)"
  proof
    fix q assume "q \<in> set (map (path_join p) (topLevelDocuments es))"
    then have "q \<in> set (scanDir False p es)" by (simp add: scanDir_top_level)
    then show "q \<in> set (scanDir True p es)"
      by (induction False p es rule: scanDir.induct) (auto split: if_splits)
  qed
  from a b c d show ?thesis by simp
qed

theorem collect_documents_witness:
  "collectWordFiles exampleWorld [''in''] False =
     (Inr [[''in'', ''Report.docx''], [''in'', ''Plan.DOTM''], [''in'', ''...docx'']], exampleWorld) \<and>
   (\<exists>fls. collectWordFiles exampleWorld [''in''] True = (Inr fls, exampleWorld) \<and>
          [''in'', ''sub'', ''C.docx''] \<in> set fls \<and> [''in'', ''Report.docx''] \<in> set fls)"
proof -
  let ?es = "[Entry ''Report.docx'' File, Entry ''notes.txt'' File, Entry ''Plan.DOTM'' File,
              Entry ''...docx'' File, Entry ''sub'' (Dir [Entry ''C.docx'' File])]"
  have h: "lookup (files exampleWorld) [''in''] = Some (Dir ?es)"
    by (simp add: exampleWorld_def exampleFiles_def)
  have t: "map (path_join [''in'']) (topLevelDocuments ?es) =
             [[''in'', ''Report.docx''], [''in'', ''Plan.DOTM''], [''in'', ''...docx'']]"
    by (simp add: eval_names)
  have f1: "fileBelow ?es [''sub'', ''C.docx'']"
    by (rule fileBelow.deeper[of _ "[Entry ''C.docx'' File]"]) (simp_all add: fileBelow.here)
  have f2: "isWordExtension (extname (last [''sub'', ''C.docx'']))" by (simp add: eval_names)
  have f3: "[''in'', ''sub'', ''C.docx''] = foldl path_join [''in''] [''sub'', ''C.docx'']"
    by (simp add: path_join_def)
  from collect_documents[OF h] obtain fls where
    a: "collectWordFiles exampleWorld [''in''] False =
          (Inr (map (path_join [''in'']) (topLevelDocuments ?es)), exampleWorld)"
    and b: "collectWordFiles exampleWorld [''in''] True = (Inr fls, exampleWorld)"
    and c: "set fls = {q. \<exists>rel. fileBelow ?es rel \<and> isWordExtension (extname (last rel)) \<and>
                              q = foldl path_join [''in''] rel}"
    and d: "set (map (path_join [''in'']) (topLevelDocuments ?es)) \<subseteq> set fls"
    by blast
  from c f1 f2 f3 have m1: "[''in'', ''sub'', ''C.docx''] \<in> set fls" by blast
  from d[unfolded t] have m2: "[''in'', ''Report.docx''] \<in> set fls" by simp
  from a[unfolded t] b m1 m2 show ?thesis by blast
qed

subsection \<open>The page-count lookup\<close>

lemma similar_refl [simp]: "similar w w"
  by (simp add: similar_def)

lemma withLookup_fields [simp]:
  "cwd (withLookupOutcome g e) = cwd e"
  "homedir (withLookupOutcome g e) = homedir e"
  "tmpdir (withLookupOutcome g e) = tmpdir e"
  "mkdtempSuffix (withLookupOutcome g e) = mkdtempSuffix e"
  "rmSyncFails (withLookupOutcome g e) = rmSyncFails e"
  by (simp_all add: withLookupOutcome_def)

lemma withLookup_run:
  "run (withLookupOutcome g e) cmd fs =
     (if isLookup cmd then (g cmd fs, snd (run e cmd fs)) else run e cmd fs)"
  by (simp add: withLookupOutcome_def)

lemma spawnSync_other:
  "\<not> isLookup cmd \<Longrightarrow> spawnSync (withLookupOutcome g e) cmd w = spawnSync e cmd w"
  by (simp add: spawnSync_def withLookup_run)

lemma spawnSync_state:
  "snd (spawnSync (withLookupOutcome g e) cmd w) = snd (spawnSync e cmd w)"
  by (simp add: spawnSync_alt withLookup_run)

lemma spawnSync_similar:
  assumes "similar w' w"
  shows "fst (spawnSync e cmd w') = fst (spawnSync e cmd w) \<and>
         similar (snd (spawnSync e cmd w')) (snd (spawnSync e cmd w))"
  using assms by (simp add: spawnSync_alt similar_def)

lemma print_similar:
  "similar w' w \<Longrightarrow> erasePageCount l' = erasePageCount l \<Longrightarrow> similar (print l' w') (print l w)"
  by (simp add: similar_def)

lemma resolveLibreOffice_lookup:
  "resolveLibreOffice (withLookupOutcome g e) w = resolveLibreOffice e w"
  by (simp add: resolveLibreOffice_def spawnSync_alt withLookup_run Let_def cong: if_cong)

lemma stepPdf_lookup:
  "stepPdf (withLookupOutcome g e) fp base tmp w = stepPdf e fp base tmp w"
  by (simp add: stepPdf_def resolveLibreOffice_lookup spawnSync_alt withLookup_run
      split: prod.splits cong: if_cong)

lemma queryPageCount_state:
  "snd (queryPageCount (withLookupOutcome g e) pdf w) = snd (queryPageCount e pdf w)"
  by (simp add: queryPageCount_def spawnSync_alt withLookup_run)

lemma stepJpg_similar:
  assumes "similar w' w"
  shows "fst (stepJpg (withLookupOutcome g e) base dir d q pdf pc' w') =
           fst (stepJpg e base dir d q pdf pc w) \<and>
         similar (snd (stepJpg (withLookupOutcome g e) base dir d q pdf pc' w'))
                 (snd (stepJpg e base dir d q pdf pc w))"
proof -
  let ?cmd = "Pdftoppm d q pdf (path_join dir (base @ ''_page''))"
  have s: "similar (print (CreatingJpgs pc' d) w') (print (CreatingJpgs pc d) w)"
    by (rule print_similar[OF assms]) simp
  from spawnSync_similar[OF s, of e ?cmd]
  have r: "fst (spawnSync e ?cmd (print (CreatingJpgs pc' d) w')) =
             fst (spawnSync e ?cmd (print (CreatingJpgs pc d) w))"
    and t: "similar (snd (spawnSync e ?cmd (print (CreatingJpgs pc' d) w')))
                    (snd (spawnSync e ?cmd (print (CreatingJpgs pc d) w)))"
    by simp_all
  obtain r1 w1 where a: "spawnSync e ?cmd (print (CreatingJpgs pc' d) w') = (r1, w1)" by fastforce
  obtain r2 w2 where b: "spawnSync e ?cmd (print (CreatingJpgs pc d) w) = (r2, w2)" by fastforce
  from r t a b have "r1 = r2" "similar w1 w2" by simp_all
  then have "files w1 = files w2" by (simp add: similar_def)
  with a b \<open>r1 = r2\<close> \<open>similar w1 w2\<close> show ?thesis
    by (simp add: stepJpg_def spawnSync_other split: option.splits)
qed

lemma resizeAll_similar:
  "similar w' w \<Longrightarrow>
   fst (resizeAll (withLookupOutcome g e) d q outs w') = fst (resizeAll e d q outs w) \<and>
   similar (snd (resizeAll (withLookupOutcome g e) d q outs w')) (snd (resizeAll e d q outs w))"
proof (induction outs arbitrary: w' w)
  case Nil
  then show ?case by simp
next
  case (Cons f outs)
  obtain r1 w1 where a: "spawnSync e (Convert f d q) w' = (r1, w1)" by fastforce
  obtain r2 w2 where b: "spawnSync e (Convert f d q) w = (r2, w2)" by fastforce
  from spawnSync_similar[OF Cons.prems, of e "Convert f d q"] a b
  have "r1 = r2" "similar w1 w2" by simp_all
  with Cons.IH[of w1 w2] a b show ?case by (simp add: spawnSync_other)
qed

lemma stepResize_similar:
  assumes "similar w' w"
  shows "fst (stepResize (withLookupOutcome g e) rs q outs w') = fst (stepResize e rs q outs w) \<and>
         similar (snd (stepResize (withLookupOutcome g e) rs q outs w'))
                 (snd (stepResize e rs q outs w))"
proof (cases rs)
  case None
  with assms show ?thesis by (simp add: stepResize_def)
next
  case (Some d)
  let ?l = "Resizing (width d) (height d)"
  have s: "similar (print ?l w') (print ?l w)" by (rule print_similar[OF assms]) simp
  obtain r1 w1 where a: "resizeAll (withLookupOutcome g e) d q outs (print ?l w') = (r1, w1)"
    by fastforce
  obtain r2 w2 where b: "resizeAll e d q outs (print ?l w) = (r2, w2)" by fastforce
  from resizeAll_similar[OF s, of g e d q outs] a b have "r1 = r2" "similar w1 w2" by simp_all
  with Some a b show ?thesis by (cases r2) (simp_all add: stepResize_def)
qed

lemma tryBlock_lookup:
  "fst (tryBlock (withLookupOutcome g e) fp base dir tmp d q rs w) =
     fst (tryBlock e fp base dir tmp d q rs w) \<and>
   similar (snd (tryBlock (withLookupOutcome g e) fp base dir tmp d q rs w))
           (snd (tryBlock e fp base dir tmp d q rs w))"
proof -
  obtain r1 w1 where s1: "stepPdf e fp base tmp w = (r1, w1)" by fastforce
  show ?thesis
  proof (cases r1)
    case (Inl ex)
    with s1 show ?thesis by (simp add: tryBlock_def stepPdf_lookup)
  next
    case (Inr pdf)
    obtain pc' w2' where q1: "queryPageCount (withLookupOutcome g e) pdf w1 = (pc', w2')"
      by fastforce
    obtain pc w2 where q2: "queryPageCount e pdf w1 = (pc, w2)" by fastforce
    from queryPageCount_state[of g e pdf w1] q1 q2 have same: "w2' = w2" by simp
    obtain r3' w3' where j1:
      "stepJpg (withLookupOutcome g e) base dir d q pdf pc' w2 = (r3', w3')" by fastforce
    obtain r3 w3 where j2: "stepJpg e base dir d q pdf pc w2 = (r3, w3)" by fastforce
    from stepJpg_similar[OF similar_refl, of g e base dir d q pdf pc' w2 pc] j1 j2
    have r3: "r3' = r3" and s3: "similar w3' w3" by simp_all
    show ?thesis
    proof (cases r3)
      case (Inl ex)
      with s1 Inr q1 q2 same j1 j2 r3 s3 show ?thesis by (simp add: tryBlock_def stepPdf_lookup)
    next
      case outs: (Inr outs)
      with s1 Inr q1 q2 same j1 j2 r3 stepResize_similar[OF s3, of g e rs q outs]
      show ?thesis by (simp add: tryBlock_def stepPdf_lookup)
    qed
  qed
qed

lemma finallyBlock_similar:
  "similar w' w \<Longrightarrow> similar (finallyBlock (withLookupOutcome g e) tmp w') (finallyBlock e tmp w)"
  by (simp add: finallyBlock_def similar_def)

lemma mkdtempSync_lookup: "mkdtempSync (withLookupOutcome g e) fs = mkdtempSync e fs"
  by (simp add: mkdtempSync_def)

text \<open>
  \<^bold>\<open>Claim C9.\<close> Let the two page-count programs of step 2 report anything at all (any
  status, any output, or a failure to start) while their effect on the file system stays
  what it was. Then \<^verbatim>\<open>convertFile\<close> returns the same result (or throws the same
  exception), leaves the same file system, and prints the same lines except for the page
  count shown in the progress line of step 3.
\<close>

theorem page_count_lookup_is_informational:
  "fst (convertFile (withLookupOutcome g e) fp out d q rs w) = fst (convertFile e fp out d q rs w) \<and>
   files (snd (convertFile (withLookupOutcome g e) fp out d q rs w)) =
     files (snd (convertFile e fp out d q rs w)) \<and>
   map erasePageCount (console (snd (convertFile (withLookupOutcome g e) fp out d q rs w))) =
     map erasePageCount (console (snd (convertFile e fp out d q rs w)))"
proof -
  let ?e' = "withLookupOutcome g e"
  let ?base = "basename fp (path_extname fp)"
  let ?F = "path_join out ?base"
  have "fst (convertFile ?e' fp out d q rs w) = fst (convertFile e fp out d q rs w) \<and>
        similar (snd (convertFile ?e' fp out d q rs w)) (snd (convertFile e fp out d q rs w))"
  proof (cases "mkdirp (files w) ?F")
    case None
    then show ?thesis by (simp add: convertFile_def Let_def)
  next
    case (Some fs1)
    show ?thesis
    proof (cases "mkdtempSync e fs1")
      case None
      with Some show ?thesis by (simp add: convertFile_def Let_def mkdtempSync_lookup)
    next
      case mt: (Some pr)
      obtain tmp fs2 where pr: "pr = (tmp, fs2)" by (cases pr)
      let ?w2 = "w\<lparr>files := fs2\<rparr>"
      obtain r' w3' where t1: "tryBlock ?e' fp ?base ?F tmp d q rs ?w2 = (r', w3')" by fastforce
      obtain r w3 where t2: "tryBlock e fp ?base ?F tmp d q rs ?w2 = (r, w3)" by fastforce
      from tryBlock_lookup[of g e fp ?base ?F tmp d q rs ?w2] t1 t2
      have rr: "r' = r" and ss: "similar w3' w3" by simp_all
      from finallyBlock_similar[OF ss, of g e tmp]
      have "similar (finallyBlock ?e' tmp w3') (finallyBlock e tmp w3)" .
      with Some mt pr t1 t2 rr show ?thesis
        by (cases r) (simp_all add: convertFile_def Let_def mkdtempSync_lookup)
    qed
  qed
  then show ?thesis by (simp add: similar_def)
qed

theorem page_count_lookup_is_informational_witness:
  "fst (convertFile (withLookupOutcome (\<lambda>cmd fs. NotStarted) (exampleEnv workingTools False))
          [''in'', ''Report.docx''] [''out''] (Num 150) (Num 90) None exampleWorld) =
   fst (convertFile (exampleEnv workingTools False)
          [''in'', ''Report.docx''] [''out''] (Num 150) (Num 90) None exampleWorld) \<and>
   console (snd (convertFile (withLookupOutcome (\<lambda>cmd fs. NotStarted) (exampleEnv workingTools False))
          [''in'', ''Report.docx''] [''out''] (Num 150) (Num 90) None exampleWorld)) =
     [ConvertingToPdf, CreatingJpgs (Num 1) (Num 150)] \<and>
   console (snd (convertFile (exampleEnv workingTools False)
          [''in'', ''Report.docx''] [''out''] (Num 150) (Num 90) None exampleWorld)) =
     [ConvertingToPdf, CreatingJpgs (Num 2) (Num 150)]"
proof -
  have a: "console (snd (convertFile (withLookupOutcome (\<lambda>cmd fs. NotStarted) (exampleEnv workingTools False))
          [''in'', ''Report.docx''] [''out''] (Num 150) (Num 90) None exampleWorld)) =
     [ConvertingToPdf, CreatingJpgs (Num 1) (Num 150)]"
    by (simp add: withLookupOutcome_def eval_paths eval_env eval_convert eval_pages)
  have b: "console (snd (convertFile (exampleEnv workingTools False)
          [''in'', ''Report.docx''] [''out''] (Num 150) (Num 90) None exampleWorld)) =
     [ConvertingToPdf, CreatingJpgs (Num 2) (Num 150)]"
    by (simp add: eval_paths eval_env eval_convert eval_pages)
  from page_count_lookup_is_informational[of "\<lambda>cmd fs. NotStarted" "exampleEnv workingTools False"
      "[''in'', ''Report.docx'']" "[''out'']" "Num 150" "Num 90" None exampleWorld] a b
  show ?thesis by simp
qed

subsection \<open>The output files of a successful conversion\<close>

text \<open>The output files of a successful conversion are the entries of the document's output
  directory whose names end in \<^verbatim>\<open>.jpg\<close>, sorted by name and joined to that directory, and
  the page count is their number. The directory is the output directory extended by the
  base name when the base name is an ordinary name.\<close>

lemma stepResize_outputs: "stepResize e rs q outs w = (Inr res, w') \<Longrightarrow> res = outs"
  by (auto simp: stepResize_def split: option.splits prod.splits sum.splits)

lemma stepJpg_outputs:
  "stepJpg e base dir d q pdf pc w = (Inr outs, w') \<Longrightarrow>
   \<exists>names. outs = map (path_join dir) (sort (filter (endsWith ''.jpg'') names))"
  by (auto simp: stepJpg_def split: option.splits prod.splits if_splits)

lemma tryBlock_outputs:
  assumes "tryBlock e fp base dir tmp d q rs w = (Inr outs, w')"
  shows "\<exists>names. outs = map (path_join dir) (sort (filter (endsWith ''.jpg'') names))"
proof -
  from assms obtain pdf w1 pc w2 outs' w3 where
    "stepJpg e base dir d q pdf pc w2 = (Inr outs', w3)" "stepResize e rs q outs' w3 = (Inr outs, w')"
    by (auto simp: tryBlock_def split: prod.splits sum.splits)
  with stepResize_outputs[of e rs q outs' w3 outs w'] stepJpg_outputs[of e base dir d q pdf pc w2 outs' w3]
  show ?thesis by simp
qed

lemma splitPath_plain: "CHR ''/'' \<notin> set s \<Longrightarrow> splitPath s = [s]"
  by (induction s) auto

lemma path_join_plain:
  "CHR ''/'' \<notin> set s \<Longrightarrow> s \<noteq> [] \<Longrightarrow> s \<noteq> ''.'' \<Longrightarrow> s \<noteq> ''..'' \<Longrightarrow> path_join p s = p @ [s]"
  by (simp add: path_join_def splitPath_plain)

lemma successful_conversion_outputs:
  assumes "convertFile e fp out d q rs w = (Inr r, w')" and "error r = None"
  shows "pages r = length (outputFiles r) \<and>
         (\<exists>names. outputFiles r = map (path_join (fileOutputDirOf fp out)) names \<and>
                  sorted names \<and> list_all (endsWith ''.jpg'') names)"
proof -
  from convertFile_Inr[OF assms(1)] obtain fs1 tmp fs2 where
    mk: "mkdirp (files w) (fileOutputDirOf fp out) = Some fs1"
    and mt: "mkdtempSync e fs1 = Some (tmp, fs2)" by blast
  obtain res w3 where tb: "tryBlock e fp (basename fp (path_extname fp)) (fileOutputDirOf fp out)
      tmp d q rs (w\<lparr>files := fs2\<rparr>) = (res, w3)" by fastforce
  from convertFile_returns[OF mk mt, of d q rs] tb assms obtain outs where
    res: "res = Inr outs" and r: "outputFiles r = outs" "pages r = length outs"
    by (cases res) auto
  from tryBlock_outputs[OF tb[unfolded res]] obtain names where
    "outs = map (path_join (fileOutputDirOf fp out)) (sort (filter (endsWith ''.jpg'') names))"
    by blast
  with r show ?thesis
    by (intro conjI exI[of _ "sort (filter (endsWith ''.jpg'') names)"])
       (simp_all add: list_all_iff)
qed

lemma ordinary_base_name_subdirectory:
  assumes "CHR ''/'' \<notin> set (basename fp (path_extname fp))"
    and "basename fp (path_extname fp) \<notin> {[], ''.'', ''..''}"
  shows "fileOutputDirOf fp out = out @ [basename fp (path_extname fp)]"
  using assms by (simp add: fileOutputDirOf_def path_join_plain)

text \<open>
  \<^bold>\<open>Claim C6\<close> at a document whose name is \<^verbatim>\<open>...docx\<close>. Its extension is \<^verbatim>\<open>.docx\<close>, so it
  is collected; its base name is \<^verbatim>\<open>..\<close>, so \<^verbatim>\<open>path.join\<close> turns the document's output
  directory into the parent of the output directory (here the root). The conversion
  succeeds, the pages are written beside the output directory, and a picture that was
  already there is reported as a page.
\<close>

theorem parent_directory_output:
  "fileOutputDirOf [''in'', ''...docx''] [''out''] = [] \<and>
   fst (convertFile (exampleEnv workingTools False) [''in'', ''...docx''] [''out''] (Num 150) (Num 90)
          None exampleWorld) =
     Inr \<lparr>source = [''in'', ''...docx''], pages = 3,
           outputFiles = [[''.._page-1.jpg''], [''.._page-2.jpg''], [''photo.jpg'']],
           error = None\<rparr>"
  by (simp add: eval_paths eval_env eval_convert eval_pages)

subsection \<open>main and the exit code\<close>

lemma missing_value_no_exit:
  assumes "takesValue a"
  shows "parseLoop wd [a] c \<noteq> Inl (ls, Exit n)"
proof -
  consider (i) "isInputFlag a" | (o) "isOutputFlag a" | (d) "isDpiFlag a" | (q) "isQualityFlag a"
    | (s) "isResizeFlag a"
    using assms unfolding takesValue_def by blast
  then show ?thesis
  proof cases
    case i then show ?thesis
      unfolding isInputFlag_def by (elim disjE) (simp_all add: parseLoop.simps(2))
  next
    case o then show ?thesis
      unfolding isOutputFlag_def by (elim disjE) (simp_all add: parseLoop.simps(2))
  next
    case d then show ?thesis
      unfolding isDpiFlag_def by (elim disjE) (simp_all add: parseLoop.simps(2))
  next
    case q then show ?thesis
      unfolding isQualityFlag_def by (elim disjE) (simp_all add: parseLoop.simps(2))
  next
    case s then show ?thesis
      unfolding isResizeFlag_def by (elim disjE) (simp_all add: parseLoop.simps(2))
  qed
qed

lemma parseLoop_exit:
  "parseLoop wd args c = Inl (ls, Exit n) \<Longrightarrow>
   (n = 0 \<and> ls = [HelpText]) \<or> (n = 1 \<and> (\<exists>raw. ls = [InvalidResize raw]))"
proof (induction args arbitrary: c rule: induct_list012)
  case 1
  then show ?case by simp
next
  case (2 a)
  show ?case
  proof (cases "isHelpFlag a")
    case True
    with 2 show ?thesis by (simp add: step_help)
  next
    case nh: False
    show ?thesis
    proof (cases "takesValue a")
      case True
      with 2 missing_value_no_exit[OF True] show ?thesis by blast
    next
      case False
      from step_plain[OF nh False, of wd c] obtain c' where
        "parseLoop wd [a] c = parseLoop wd [] c'" by blast
      with 2 show ?thesis by simp
    qed
  qed
next
  case (3 a v rest)
  show ?case
  proof (cases "isHelpFlag a")
    case True
    with "3.prems" show ?thesis by (simp add: step_help)
  next
    case nh: False
    show ?thesis
    proof (cases "takesValue a")
      case tv: True
      show ?thesis
      proof (cases "isResizeFlag a \<and> matchResize v = None")
        case True
        with "3.prems" show ?thesis by (auto simp: step_resize_invalid)
      next
        case False
        then have "isResizeFlag a \<longrightarrow> matchResize v \<noteq> None" by simp
        from step_value[OF tv this, of wd c] obtain c' where
          "parseLoop wd (a # v # rest) c = parseLoop wd rest c'" by blast
        with "3.prems" "3.IH"(1)[of c'] show ?thesis by simp
      qed
    next
      case False
      from step_plain[OF nh False, of wd c] obtain c' where
        "parseLoop wd (a # v # rest) c = parseLoop wd (v # rest) c'" by blast
      with "3.prems" "3.IH"(2)[of c'] show ?thesis by simp
    qed
  qed
qed

lemma checkDependencies_abort:
  assumes "checkDependencies e b w = (Inl a, w')"
  shows "a = Exit 1 \<and> console w' \<noteq> [] \<and> fatalLine (last (console w'))"
  using assms
  by (auto simp: checkDependencies_def split: prod.splits if_splits)

lemma collectWordFiles_abort:
  assumes "collectWordFiles w p r = (Inl a, w')"
  shows "(a = Exit 1 \<and> console w' \<noteq> [] \<and> fatalLine (last (console w'))) \<or> (\<exists>ex. a = Uncaught ex)"
  using assms
  by (auto simp: collectWordFiles_def split: option.splits node.splits if_splits)

lemma convertFile_abort:
  "convertFile e fp out d q rs w = (Inl a, w') \<Longrightarrow> \<exists>ex. a = Uncaught ex"
  by (auto simp: convertFile_def Let_def split: option.splits prod.splits sum.splits)

lemma convertLoop_abort:
  "convertLoop e c n i fls t w = (Inl a, w') \<Longrightarrow> \<exists>ex. a = Uncaught ex"
proof (induction fls arbitrary: i t w)
  case Nil
  then show ?case by simp
next
  case (Cons f fls)
  obtain r w1 where cf: "convertFile e f (outputDir c) (dpi c) (quality c) (resize c)
      (print (Progress (i + 1) n (basename f [])) w) = (r, w1)" by fastforce
  show ?case
  proof (cases r)
    case (Inl x)
    have "convertLoop e c n i (f # fls) t w = (Inl x, w1)"
      by (subst convertLoop.simps(2)) (simp only: cf[unfolded Inl] prod.case sum.case)
    with Cons.prems have "a = x" by simp
    with convertFile_abort[OF cf[unfolded Inl]] show ?thesis by simp
  next
    case (Inr res)
    show ?thesis
    proof (cases "truthy (error res)")
      case True
      have "convertLoop e c n i (f # fls) t w =
              convertLoop e c n (i + 1) fls
                (t\<lparr>results := results t @ [res], errorCount := errorCount t + 1\<rparr>)
                (print (ErrorLine (case error res of None \<Rightarrow> [] | Some m \<Rightarrow> m)) w1)"
        by (subst convertLoop.simps(2)) (simp only: cf[unfolded Inr] prod.case sum.case True if_True)
      with Cons.prems Cons.IH show ?thesis by simp
    next
      case False
      show ?thesis
      proof (cases "outputFiles res")
        case Nil
        have "convertLoop e c n i (f # fls) t w = (Inl (Uncaught argumentTypeError), w1)"
          by (subst convertLoop.simps(2))
             (simp only: cf[unfolded Inr] prod.case sum.case False if_False Nil list.case)
        with Cons.prems show ?thesis by simp
      next
        case (Cons g gs)
        have "convertLoop e c n i (f # fls) t w =
                convertLoop e c n (i + 1) fls
                  (t\<lparr>results := results t @ [res], successCount := successCount t + 1\<rparr>)
                  (print (SuccessLine (pages res) (cwd e) (dirname g)) w1)"
          by (subst convertLoop.simps(2))
             (simp only: cf[unfolded Inr] prod.case sum.case False if_False Cons list.case)
        with Cons.prems Cons.IH show ?thesis by simp
      qed
    qed
  qed
qed


lemma main_exit:
  assumes "main e args w = (Inl (Exit n), w')"
  shows "console w' \<noteq> [] \<and>
         ((n = 0 \<and> (last (console w') = HelpText \<or> last (console w') = NoWordFiles)) \<or>
          (n = 1 \<and> fatalLine (last (console w'))))"
proof (cases "parseArgs (cwd e) args")
  case (Inl pr)
  obtain ls a where pr: "pr = (ls, a)" by (cases pr)
  with Inl assms have a: "a = Exit n" and w': "w' = w\<lparr>console := console w @ Banner # ls\<rparr>"
    by (simp_all add: main_def)
  from Inl pr a have "parseLoop (cwd e) args (defaultConfig (cwd e)) = Inl (ls, Exit n)"
    by (simp add: parseArgs_def)
  from parseLoop_exit[OF this] w' show ?thesis by auto
next
  case (Inr c)
  obtain r1 w1 where cd: "checkDependencies e (resize c \<noteq> None) (print Banner w) = (r1, w1)"
    by fastforce
  show ?thesis
  proof (cases r1)
    case (Inl a)
    with Inr cd assms have "a = Exit n" "w' = w1" by (simp_all add: main_def)
    with checkDependencies_abort[OF cd[unfolded Inl]] show ?thesis by auto
  next
    case ok: (Inr u)
    show ?thesis
    proof (cases "existsSync (files w1) (inputPath c)")
      case False
      with Inr cd ok assms show ?thesis by (auto simp: main_def)
    next
      case True
      obtain r2 w2 where cw: "collectWordFiles w1 (inputPath c) (recursive c) = (r2, w2)"
        by fastforce
      show ?thesis
      proof (cases r2)
        case (Inl a)
        with Inr cd ok True cw assms have "a = Exit n" "w' = w2" by (simp_all add: main_def)
        with collectWordFiles_abort[OF cw[unfolded Inl]] show ?thesis by auto
      next
        case fl: (Inr fls)
        show ?thesis
        proof (cases "fls = []")
          case True
          with Inr cd ok \<open>existsSync (files w1) (inputPath c)\<close> cw fl assms show ?thesis
            by (auto simp: main_def)
        next
          case ne: False
          show ?thesis
          proof (cases "mkdirp (files w2) (outputDir c)")
            case None
            with Inr cd ok True cw fl ne assms show ?thesis by (simp add: main_def)
          next
            case (Some fs')
            obtain r3 w3 where cl: "convertLoop e c (length fls) 0 fls
                \<lparr>results = [], successCount = 0, errorCount = 0\<rparr>
                ((print (RunInfo (outputDir c) (length fls) (dpi c) (quality c) (resize c)) w2)
                   \<lparr>files := fs'\<rparr>) = (r3, w3)" by fastforce
            show ?thesis
            proof (cases r3)
              case (Inl a)
              with Inr cd ok True cw fl ne Some cl assms have "a = Exit n"
                by (simp add: main_def)
              with convertLoop_abort[OF cl[unfolded Inl]] show ?thesis by simp
            next
              case (Inr t)
              with \<open>parseArgs (cwd e) args = Inr c\<close> cd ok True cw fl ne Some cl assms
              show ?thesis by (simp add: main_def)
            qed
          qed
        qed
      qed
    qed
  qed
qed

text \<open>The fatal conditions are exactly the ways in which \<^verbatim>\<open>main\<close> calls
  \<^verbatim>\<open>process.exit(1)\<close>, and \<^verbatim>\<open>main\<close> returns exactly when the loop has run through all
  documents. A value-taking flag for a path or for the resize target that comes last, with
  no value, makes \<^verbatim>\<open>parseArgs\<close> throw.\<close>

lemma malformed_exit:
  "malformedResize args \<Longrightarrow> \<exists>raw. parseLoop wd args c = Inl ([InvalidResize raw], Exit 1)"
proof (induction args arbitrary: c rule: induct_list012)
  case 1
  then show ?case by simp
next
  case (2 a)
  then show ?case by simp
next
  case (3 a v rest)
  from "3.prems" have nh: "\<not> isHelpFlag a" by simp
  show ?case
  proof (cases "takesValue a")
    case tv: True
    show ?thesis
    proof (cases "isResizeFlag a \<and> matchResize v = None")
      case True
      then show ?thesis by (auto simp: step_resize_invalid)
    next
      case False
      with "3.prems" tv have m: "malformedResize rest" by simp
      from False have "isResizeFlag a \<longrightarrow> matchResize v \<noteq> None" by simp
      from step_value[OF tv this, of wd c] obtain c' where
        "parseLoop wd (a # v # rest) c = parseLoop wd rest c'" by blast
      with "3.IH"(1)[OF m, of c'] show ?thesis by simp
    qed
  next
    case False
    with "3.prems" have m: "malformedResize (v # rest)" by simp
    from step_plain[OF nh False, of wd c] obtain c' where
      "parseLoop wd (a # v # rest) c = parseLoop wd (v # rest) c'" by blast
    with "3.IH"(2)[OF m, of c'] show ?thesis by simp
  qed
qed

lemma exit_malformed:
  "parseLoop wd args c = Inl (ls, Exit 1) \<Longrightarrow> malformedResize args"
proof (induction args arbitrary: c rule: induct_list012)
  case 1
  then show ?case by simp
next
  case (2 a)
  show ?case
  proof (cases "isHelpFlag a")
    case True
    with 2 show ?thesis by (simp add: step_help)
  next
    case nh: False
    show ?thesis
    proof (cases "takesValue a")
      case True
      with 2 missing_value_no_exit[OF True] show ?thesis by blast
    next
      case False
      from step_plain[OF nh False, of wd c] obtain c' where
        "parseLoop wd [a] c = parseLoop wd [] c'" by blast
      with 2 show ?thesis by simp
    qed
  qed
next
  case (3 a v rest)
  show ?case
  proof (cases "isHelpFlag a")
    case True
    with "3.prems" show ?thesis by (simp add: step_help)
  next
    case nh: False
    show ?thesis
    proof (cases "takesValue a")
      case tv: True
      show ?thesis
      proof (cases "isResizeFlag a \<and> matchResize v = None")
        case True
        with nh tv show ?thesis by simp
      next
        case False
        then have "isResizeFlag a \<longrightarrow> matchResize v \<noteq> None" by simp
        from step_value[OF tv this, of wd c] obtain c' where
          "parseLoop wd (a # v # rest) c = parseLoop wd rest c'" by blast
        with "3.prems" "3.IH"(1)[of c'] have "malformedResize rest" by simp
        with nh tv False show ?thesis by simp
      qed
    next
      case False
      from step_plain[OF nh False, of wd c] obtain c' where
        "parseLoop wd (a # v # rest) c = parseLoop wd (v # rest) c'" by blast
      with "3.prems" "3.IH"(2)[of c'] have "malformedResize (v # rest)" by simp
      with nh False show ?thesis by simp
    qed
  qed
qed

lemma malformed_parseArgs:
  "malformedResize args \<Longrightarrow> \<exists>raw. parseArgs wd args = Inl ([InvalidResize raw], Exit 1)"
  by (simp add: parseArgs_def malformed_exit)

lemma checkDependencies_missing:
  "missingTool e b w \<Longrightarrow> \<exists>w'. checkDependencies e b w = (Inl (Exit 1), w')"
  by (auto simp: missingTool_def checkDependencies_def split: prod.splits)

lemma checkDependencies_present:
  "\<not> missingTool e b w \<Longrightarrow> \<exists>w'. checkDependencies e b w = (Inr (), w')"
  by (auto simp: missingTool_def checkDependencies_def split: prod.splits)

lemma fatal_main:
  assumes "fatalCondition e args w"
  shows "\<exists>w'. main e args w = (Inl (Exit 1), w')"
proof (cases "malformedResize args")
  case True
  from malformed_parseArgs[OF True, of "cwd e"] show ?thesis by (auto simp: main_def)
next
  case False
  with assms obtain c where c: "parseArgs (cwd e) args = Inr c"
    and f: "missingTool e (resize c \<noteq> None) (print Banner w) \<or> inputMissing e c (print Banner w) \<or>
            notWordDocument e c (print Banner w)"
    by (auto simp: fatalCondition_def split: sum.splits)
  show ?thesis
  proof (cases "missingTool e (resize c \<noteq> None) (print Banner w)")
    case True
    from checkDependencies_missing[OF True] c show ?thesis by (auto simp: main_def)
  next
    case nm: False
    from checkDependencies_present[OF nm] obtain w1 where
      cd: "checkDependencies e (resize c \<noteq> None) (print Banner w) = (Inr (), w1)" by blast
    show ?thesis
    proof (cases "existsSync (files w1) (inputPath c)")
      case False
      with c cd show ?thesis by (simp add: main_def)
    next
      case True
      with f nm cd have "lookup (files w1) (inputPath c) = Some File"
        and "\<not> isWordExtension (path_extname (inputPath c))"
        by (simp_all add: inputMissing_def notWordDocument_def)
      with c cd True show ?thesis by (simp add: main_def collectWordFiles_def)
    qed
  qed
qed

lemma collectWordFiles_exit:
  assumes "collectWordFiles w p r = (Inl (Exit n), w')"
  shows "n = 1 \<and> lookup (files w) p = Some File \<and> \<not> isWordExtension (path_extname p)"
  using assms
  by (auto simp: collectWordFiles_def split: option.splits node.splits if_splits)

lemma main_fatal:
  assumes "main e args w = (Inl (Exit 1), w')"
  shows "fatalCondition e args w"
proof (cases "parseArgs (cwd e) args")
  case (Inl pr)
  obtain ls a where pr: "pr = (ls, a)" by (cases pr)
  with Inl assms have "a = Exit 1" by (simp add: main_def)
  with Inl pr have "parseLoop (cwd e) args (defaultConfig (cwd e)) = Inl (ls, Exit 1)"
    by (simp add: parseArgs_def)
  from exit_malformed[OF this] show ?thesis by (simp add: fatalCondition_def)
next
  case (Inr c)
  show ?thesis
  proof (cases "missingTool e (resize c \<noteq> None) (print Banner w)")
    case True
    with Inr show ?thesis by (simp add: fatalCondition_def)
  next
    case nm: False
    from checkDependencies_present[OF nm] obtain w1 where
      cd: "checkDependencies e (resize c \<noteq> None) (print Banner w) = (Inr (), w1)" by blast
    show ?thesis
    proof (cases "existsSync (files w1) (inputPath c)")
      case False
      with Inr cd show ?thesis by (simp add: fatalCondition_def inputMissing_def)
    next
      case True
      obtain r2 w2 where cw: "collectWordFiles w1 (inputPath c) (recursive c) = (r2, w2)"
        by fastforce
      show ?thesis
      proof (cases r2)
        case (Inl a)
        with Inr cd True cw assms have "a = Exit 1" by (simp add: main_def)
        from collectWordFiles_exit[OF cw[unfolded Inl this]] Inr cd show ?thesis
          by (simp add: fatalCondition_def notWordDocument_def)
      next
        case fl: (Inr fls)
        show ?thesis
        proof (cases "fls = []")
          case True
          with Inr cd \<open>existsSync (files w1) (inputPath c)\<close> cw fl assms show ?thesis
            by (simp add: main_def)
        next
          case ne: False
          show ?thesis
          proof (cases "mkdirp (files w2) (outputDir c)")
            case None
            with Inr cd True cw fl ne assms show ?thesis by (simp add: main_def)
          next
            case (Some fs')
            obtain r3 w3 where cl: "convertLoop e c (length fls) 0 fls
                \<lparr>results = [], successCount = 0, errorCount = 0\<rparr>
                ((print (RunInfo (outputDir c) (length fls) (dpi c) (quality c) (resize c)) w2)
                   \<lparr>files := fs'\<rparr>) = (r3, w3)" by fastforce
            show ?thesis
            proof (cases r3)
              case (Inl a)
              with Inr cd True cw fl ne Some cl assms have "a = Exit 1"
                by (simp add: main_def)
              with convertLoop_abort[OF cl[unfolded Inl]] show ?thesis by simp
            next
              case (Inr t)
              with \<open>parseArgs (cwd e) args = Inr c\<close> cd True cw fl ne Some cl assms
              show ?thesis by (simp add: main_def)
            qed
          qed
        qed
      qed
    qed
  qed
qed

lemma main_returns_loop:
  "(\<exists>w1. main e args w = (Inr (), w1)) = (\<exists>t w3. loopOutcome e args w = Some (Inr t, w3))"
  by (auto simp: main_def loopOutcome_def split: sum.splits prod.splits option.splits if_splits)

lemma missing_value_throws:
  "isInputFlag a \<or> isOutputFlag a \<or> isResizeFlag a \<Longrightarrow>
   parseLoop wd [a] c = Inl ([], Uncaught argumentTypeError)"
  unfolding isInputFlag_def isOutputFlag_def isResizeFlag_def
  by (elim disjE) (simp_all add: parseLoop.simps(2))

lemma missing_value_escapes:
  assumes "wholeOptions pre" and "isInputFlag a \<or> isOutputFlag a \<or> isResizeFlag a"
  shows "\<exists>w1. main e (pre @ [a]) w = (Inl (Uncaught argumentTypeError), w1)"
proof -
  from scan_whole[OF assms(1), of "cwd e" "defaultConfig (cwd e)"] obtain c' where
    "parseLoop (cwd e) (pre @ [a]) (defaultConfig (cwd e)) = parseLoop (cwd e) [a] c'" by blast
  with missing_value_throws[OF assms(2), of "cwd e" c'] show ?thesis
    by (simp add: main_def parseArgs_def)
qed

lemmas eval_main = program_def main_def checkDependencies_def collectWordFiles_def truthy_def
  convertLoop.simps dirname_def argumentTypeError_def

lemmas eval_fatal = fatalCondition_def missingTool_def inputMissing_def notWordDocument_def
  takesValue_def flag_defs

text \<open>
  \<^bold>\<open>Claim C3\<close> (as amended). The exit code is 0 or 1.
  \<^item> It is 0 whenever \<^verbatim>\<open>main\<close> returns, and \<^verbatim>\<open>main\<close> returns whenever the conversion loop
    has run through all documents, whatever the number of failed documents.
  \<^item> It is 1 under each fatal condition before the loop: a required program is missing,
    the input path does not exist, the resize value is malformed, or the input file is
    not a Word document.
  \<^item> It is 1 whenever an exception escapes \<^verbatim>\<open>main\<close>, which the top-level handler reports;
    a flag for the input path, the output directory or the resize target that comes last,
    without its value, is such a case.
  \<^item> When it is 1, one of the fatal conditions holds or an exception escaped \<^verbatim>\<open>main\<close>, and
    the last line on the console is the message of the fatal condition or the report of
    the top-level handler.
\<close>

theorem exit_codes:
  "(fst (program e args w) = 0 \<or> fst (program e args w) = 1) \<and>
   ((\<exists>w1. main e args w = (Inr (), w1)) \<longrightarrow> fst (program e args w) = 0) \<and>
   ((\<exists>t w3. loopOutcome e args w = Some (Inr t, w3)) \<longrightarrow> fst (program e args w) = 0) \<and>
   (fatalCondition e args w \<longrightarrow> fst (program e args w) = 1) \<and>
   ((\<exists>ex w1. main e args w = (Inl (Uncaught ex), w1)) \<longrightarrow> fst (program e args w) = 1) \<and>
   ((\<exists>pre a. args = pre @ [a] \<and> wholeOptions pre \<and>
              (isInputFlag a \<or> isOutputFlag a \<or> isResizeFlag a)) \<longrightarrow>
      fst (program e args w) = 1) \<and>
   (fst (program e args w) = 1 \<longrightarrow>
      (fatalCondition e args w \<or> (\<exists>ex w1. main e args w = (Inl (Uncaught ex), w1))) \<and>
      console (snd (program e args w)) \<noteq> [] \<and>
      fatalLine (last (console (snd (program e args w)))))"
proof -
  obtain r w' where m: "main e args w = (r, w')" by fastforce
  have loop: "(\<exists>t w3. loopOutcome e args w = Some (Inr t, w3)) \<longrightarrow> (\<exists>u. r = Inr u)"
    using main_returns_loop[of e args w] m by auto
  have fatal: "fatalCondition e args w \<longrightarrow> r = Inl (Exit 1)"
    using fatal_main[of e args w] m by auto
  have miss: "(\<exists>pre a. args = pre @ [a] \<and> wholeOptions pre \<and>
                 (isInputFlag a \<or> isOutputFlag a \<or> isResizeFlag a)) \<longrightarrow>
              r = Inl (Uncaught argumentTypeError)"
  proof (intro impI, elim exE conjE)
    fix pre a
    assume a: "args = pre @ [a]" and p: "wholeOptions pre"
      and f: "isInputFlag a \<or> isOutputFlag a \<or> isResizeFlag a"
    from missing_value_escapes[OF p f, of e w] a m
    show "r = Inl (Uncaught argumentTypeError)" by auto
  qed
  show ?thesis
  proof (cases r)
    case (Inr u)
    with m loop fatal miss show ?thesis by (simp add: program_def)
  next
    case (Inl a)
    show ?thesis
    proof (cases a)
      case (Exit n)
      have f: "n = 1 \<longrightarrow> fatalCondition e args w"
        using main_fatal[of e args w w'] m Inl Exit by simp
      from main_exit[OF m[unfolded Inl Exit]] m Inl Exit loop fatal miss f show ?thesis
        by (auto simp: program_def)
    next
      case (Uncaught ex)
      with m Inl loop fatal show ?thesis by (simp add: program_def)
    qed
  qed
qed

theorem exit_codes_witness:
  "(\<exists>t w3. loopOutcome (exampleEnv failingTools False) [''-i'', ''/in''] exampleWorld =
             Some (Inr t, w3) \<and> successCount t = 0 \<and> errorCount t = 3) \<and>
   fst (program (exampleEnv failingTools False) [''-i'', ''/in''] exampleWorld) = 0 \<and>
   fatalCondition (exampleEnv failingTools False) [''/nowhere''] exampleWorld \<and>
   fst (program (exampleEnv failingTools False) [''/nowhere''] exampleWorld) = 1 \<and>
   fatalLine (last (console (snd (program (exampleEnv failingTools False) [''/nowhere'']
                                    exampleWorld)))) \<and>
   fatalCondition (exampleEnv failingTools False) [''-s'', ''800'', ''/in''] exampleWorld \<and>
   fst (program (exampleEnv failingTools False) [''-s'', ''800'', ''/in''] exampleWorld) = 1 \<and>
   fatalCondition (exampleEnv failingTools False) [''/in/notes.txt''] exampleWorld \<and>
   fst (program (exampleEnv failingTools False) [''/in/notes.txt''] exampleWorld) = 1 \<and>
   fatalCondition (exampleEnv absentTools False) [''/in''] exampleWorld \<and>
   fst (program (exampleEnv absentTools False) [''/in''] exampleWorld) = 1 \<and>
   fst (program (exampleEnv failingTools False) [''-r'', ''/in'', ''-o''] exampleWorld) = 1"
proof -
  let ?e = "exampleEnv failingTools False"
  let ?a = "exampleEnv absentTools False"
  have l: "\<exists>t w3. loopOutcome ?e [''-i'', ''/in''] exampleWorld = Some (Inr t, w3) \<and>
             successCount t = 0 \<and> errorCount t = 3"
    by (simp add: loopOutcome_def eval_main eval_parse eval_names eval_paths eval_env eval_convert)
  have f1: "fatalCondition ?e [''/nowhere''] exampleWorld"
    by (simp add: eval_fatal eval_main eval_parse eval_names eval_paths eval_env eval_convert)
  have f2: "fatalCondition ?e [''-s'', ''800'', ''/in''] exampleWorld"
    by (simp add: fatalCondition_def takesValue_def flag_defs matchResize_def
        resizeSeparator_def isDigit_def)
  have f3: "fatalCondition ?e [''/in/notes.txt''] exampleWorld"
    by (simp add: eval_fatal eval_main eval_parse eval_names eval_paths eval_env eval_convert)
  have f4: "fatalCondition ?a [''/in''] exampleWorld"
    by (simp add: eval_fatal absentTools_def eval_main eval_parse eval_names eval_paths eval_env
        eval_convert)
  have f5: "\<exists>pre a. [''-r'', ''/in'', ''-o''] = pre @ [a] \<and> wholeOptions pre \<and>
              (isInputFlag a \<or> isOutputFlag a \<or> isResizeFlag a)"
    by (intro exI[of _ "[''-r'', ''/in'']"] exI[of _ "''-o''"])
       (simp add: takesValue_def flag_defs)
  from exit_codes[of ?e "[''-i'', ''/in'']" exampleWorld] l
  have a: "fst (program ?e [''-i'', ''/in''] exampleWorld) = 0" by blast
  from exit_codes[of ?e "[''/nowhere'']" exampleWorld] f1
  have b: "fst (program ?e [''/nowhere''] exampleWorld) = 1 \<and>
           fatalLine (last (console (snd (program ?e [''/nowhere''] exampleWorld))))" by blast
  from exit_codes[of ?e "[''-s'', ''800'', ''/in'']" exampleWorld] f2
  have c: "fst (program ?e [''-s'', ''800'', ''/in''] exampleWorld) = 1" by blast
  from exit_codes[of ?e "[''/in/notes.txt'']" exampleWorld] f3
  have d: "fst (program ?e [''/in/notes.txt''] exampleWorld) = 1" by blast
  from exit_codes[of ?a "[''/in'']" exampleWorld] f4
  have g: "fst (program ?a [''/in''] exampleWorld) = 1" by blast
  from exit_codes[of ?e "[''-r'', ''/in'', ''-o'']" exampleWorld] f5
  have h: "fst (program ?e [''-r'', ''/in'', ''-o''] exampleWorld) = 1" by blast
  from l a f1 b f2 c f3 d f4 g h show ?thesis by blast
qed

text \<open>The claim as stated allows exit code 1 only for the four fatal conditions before the
  loop. A flag \<^verbatim>\<open>-i\<close> without a value makes \<^verbatim>\<open>path.resolve\<close> throw, and a regular file
  in the place of a document's output directory makes \<^verbatim>\<open>mkdirSync\<close> throw inside the loop:
  both end with exit code 1 through the top-level handler.\<close>

theorem exit_code_one_counterexample:
  "program (exampleEnv workingTools False) [''-i''] exampleWorld =
     (1, exampleWorld\<lparr>console := [Banner, UnexpectedError ''TypeError: argument is undefined'']\<rparr>) \<and>
   program (exampleEnv workingTools False) [''-i'', ''/in/Report.docx'', ''-o'', ''/out'']
     \<lparr>files = blockedFiles, console = []\<rparr> =
     (1, \<lparr>files = blockedFiles,
          console = [Banner, RunInfo [''out''] 1 (Num 150) (Num 90) None,
                     Progress 1 1 ''Report.docx'', UnexpectedError ''EEXIST'']\<rparr>)"
  by (simp add: eval_main eval_parse eval_names eval_paths eval_env eval_convert blockedFiles_def)


end
